theory Spec2Isabelle
  imports Main
begin

section \<open>JavaScript strings\<close>

text \<open>
  A JavaScript string is a sequence of UTF-16 code units; the regular expressions of the
  source carry no \<^verbatim>\<open>u\<close> flag, so they work on code units too. A code unit is modelled as an
  integer and a string as a list of them. \<open>js\<close> turns an Isabelle literal
  into such a string.
\<close>

type_synonym jsstring = "int list"

definition js :: "string \<Rightarrow> jsstring" where
  "js s = map of_char s"

text \<open>
  The white space of \<^verbatim>\<open>String.prototype.trim\<close> and of the class \<^verbatim>\<open>\s\<close>: the ECMAScript
  WhiteSpace and LineTerminator code points.
\<close>

definition isWhiteSpace :: "int \<Rightarrow> bool" where
  "isWhiteSpace c \<longleftrightarrow>
     c = 9 \<or> c = 10 \<or> c = 11 \<or> c = 12 \<or> c = 13 \<or> c = 32 \<or> c = 160 \<or> c = 5760 \<or>
     (8192 \<le> c \<and> c \<le> 8202) \<or> c = 8232 \<or> c = 8233 \<or> c = 8239 \<or> c = 8287 \<or>
     c = 12288 \<or> c = 65279"

text \<open>The class \<^verbatim>\<open>\w\<close> is \<^verbatim>\<open>[A-Za-z0-9_]\<close>.\<close>

definition isAlnum :: "int \<Rightarrow> bool" where
  "isAlnum c \<longleftrightarrow> (48 \<le> c \<and> c \<le> 57) \<or> (65 \<le> c \<and> c \<le> 90) \<or> (97 \<le> c \<and> c \<le> 122)"

definition isWordChar :: "int \<Rightarrow> bool" where
  "isWordChar c \<longleftrightarrow> isAlnum c \<or> c = 95"

definition trim :: "jsstring \<Rightarrow> jsstring" where
  "trim s = rev (dropWhile isWhiteSpace (rev (dropWhile isWhiteSpace s)))"

text \<open>\<^verbatim>\<open>s.split(sep)\<close> for a one-character separator: the result is never empty.\<close>

fun splitOn :: "int \<Rightarrow> jsstring \<Rightarrow> jsstring list" where
  "splitOn sep [] = [[]]"
| "splitOn sep (c # cs) =
     (if c = sep then [] # splitOn sep cs
      else (case splitOn sep cs of [] \<Rightarrow> [[c]] | p # ps \<Rightarrow> (c # p) # ps))"

text \<open>\<^verbatim>\<open>fields.join(sep)\<close> for a one-character separator.\<close>

fun joinWith :: "int \<Rightarrow> jsstring list \<Rightarrow> jsstring" where
  "joinWith sep [] = []"
| "joinWith sep [x] = x"
| "joinWith sep (x # y # ys) = x @ sep # joinWith sep (y # ys)"

text \<open>
  \<^verbatim>\<open>original.split(/\r?\n/)\<close>: a line feed ends a line, and a carriage return right
  before it belongs to the separator.
\<close>

fun splitLines :: "jsstring \<Rightarrow> jsstring list" where
  "splitLines [] = [[]]"
| "splitLines (c # cs) =
     (if c = 10 then [] # splitLines cs
      else if c = 13 \<and> take 1 cs = [10] then [] # splitLines (drop 1 cs)
      else (case splitLines cs of [] \<Rightarrow> [[c]] | p # ps \<Rightarrow> (c # p) # ps))"

text \<open>
  Reading and writing an array by index as JavaScript does: a read out of range is
  \<^verbatim>\<open>undefined\<close> (\<open>None\<close>), a write out of range extends the array, and the holes it leaves
  are printed as empty strings by \<^verbatim>\<open>join\<close>.
\<close>

definition jsGet :: "'a list \<Rightarrow> nat \<Rightarrow> 'a option" where
  "jsGet xs i = (if i < length xs then Some (xs ! i) else None)"

definition jsSet :: "jsstring list \<Rightarrow> nat \<Rightarrow> jsstring \<Rightarrow> jsstring list" where
  "jsSet xs i v =
     (if i < length xs then xs[i := v] else xs @ replicate (i - length xs) [] @ [v])"

text \<open>\<^verbatim>\<open>xs.indexOf(x)\<close>, with \<open>None\<close> for \<open>-1\<close>.\<close>

fun indexOf :: "'a list \<Rightarrow> 'a \<Rightarrow> nat option" where
  "indexOf [] x = None"
| "indexOf (y # ys) x = (if y = x then Some 0 else map_option Suc (indexOf ys x))"

subsection \<open>Built-ins of the runtime\<close>

text \<open>
  Three built-ins depend on tables that are no part of the repository: the Unicode case
  mapping, the Unicode compatibility decomposition and the URL parser. They are
  parameters of the model. On a string of ASCII code units the first two are determined
  without any table: \<^verbatim>\<open>toLowerCase\<close> maps \<^verbatim>\<open>A-Z\<close> to \<^verbatim>\<open>a-z\<close> and \<^verbatim>\<open>normalize('NFKD')\<close>
  changes nothing. \<open>urlPathname\<close> is \<^verbatim>\<open>new URL(url).pathname\<close>, with \<open>None\<close> when the
  constructor throws.
\<close>

record runtime =
  unicodeLower :: "jsstring \<Rightarrow> jsstring"
  unicodeNFKD :: "jsstring \<Rightarrow> jsstring"
  urlPathname :: "jsstring \<Rightarrow> jsstring option"

definition isAscii :: "jsstring \<Rightarrow> bool" where
  "isAscii s \<longleftrightarrow> list_all (\<lambda>c. c < 128) s"

definition asciiLower :: "int \<Rightarrow> int" where
  "asciiLower c = (if 65 \<le> c \<and> c \<le> 90 then c + 32 else c)"

definition toLowerCase :: "runtime \<Rightarrow> jsstring \<Rightarrow> jsstring" where
  "toLowerCase rt s = (if isAscii s then map asciiLower s else unicodeLower rt s)"

definition normalizeNFKD :: "runtime \<Rightarrow> jsstring \<Rightarrow> jsstring" where
  "normalizeNFKD rt s = (if isAscii s then s else unicodeNFKD rt s)"

section \<open>The server action: slugs, extensions, download, CSV update\<close>

subsection \<open>toSlug\<close>

text \<open>\<^verbatim>\<open>.replace(/[^\w\s-]/g, '')\<close> keeps word characters, white space and hyphens.\<close>

definition stripNonSlugChars :: "jsstring \<Rightarrow> jsstring" where
  "stripNonSlugChars s = filter (\<lambda>c. isWordChar c \<or> isWhiteSpace c \<or> c = 45) s"

text \<open>
  \<^verbatim>\<open>.replace(/[\s_]+/g, '-')\<close>: every maximal run of white space and underscores
  becomes one hyphen.
\<close>

definition isSlugSeparator :: "int \<Rightarrow> bool" where
  "isSlugSeparator c \<longleftrightarrow> isWhiteSpace c \<or> c = 95"

function hyphenateRuns :: "jsstring \<Rightarrow> jsstring" where
  "hyphenateRuns [] = []"
| "hyphenateRuns (c # cs) =
     (if isSlugSeparator c then 45 # hyphenateRuns (dropWhile isSlugSeparator cs)
      else c # hyphenateRuns cs)"
  by pat_completeness auto
termination
  by (relation "measure length") (auto simp: length_dropWhile_le less_Suc_eq_le)

definition toSlug :: "runtime \<Rightarrow> jsstring \<Rightarrow> jsstring" where
  "toSlug rt input =
     hyphenateRuns (trim (stripNonSlugChars (normalizeNFKD rt (toLowerCase rt input))))"

subsection \<open>getFileExtensionFromUrl\<close>

text \<open>
  The part of the function after the URL has been parsed. \<^verbatim>\<open>pop()\<close> takes the last
  element of a split, which is never empty, and \<^verbatim>\<open>|| ''\<close> changes no string.
\<close>

definition extensionOfPathname :: "runtime \<Rightarrow> jsstring \<Rightarrow> jsstring" where
  "extensionOfPathname rt pathname =
     (let lastSegment = last (splitOn 47 pathname);
          clean = hd (splitOn 63 lastSegment);
          parts = splitOn 46 clean
      in if length parts > 1 then toLowerCase rt (last parts) else js ''jpg'')"

definition getFileExtensionFromUrl :: "runtime \<Rightarrow> jsstring \<Rightarrow> jsstring" where
  "getFileExtensionFromUrl rt url =
     (case urlPathname rt url of
        None \<Rightarrow> js ''jpg''
      | Some pathname \<Rightarrow> extensionOfPathname rt pathname)"

subsection \<open>parseCsvLine, stringifyCsvLine\<close>

definition parseCsvLine :: "jsstring \<Rightarrow> jsstring list" where
  "parseCsvLine line = map (\<lambda>v. v) (splitOn 44 line)"

definition stringifyCsvLine :: "jsstring list \<Rightarrow> jsstring" where
  "stringifyCsvLine flds = joinWith 44 flds"

subsection \<open>updateCsvWithFilename\<close>

datatype error =
    CsvFileIsEmpty
  | TypeError
  | FileSystemError
  | FetchFailed
  | FailedToDownloadImage nat jsstring
  | SearchFailed

text \<open>
  \<^verbatim>\<open>while (fields.length < header.length) fields.push('')\<close>. The array \<^verbatim>\<open>fields\<close> of
  the source is written \<open>flds\<close>, since the record package has a constant of that name.
\<close>

definition padFields :: "nat \<Rightarrow> jsstring list \<Rightarrow> jsstring list" where
  "padFields n flds = flds @ replicate (n - length flds) []"

text \<open>\<^verbatim>\<open>!raw || raw.trim() === ''\<close>, also used on a field that may be \<^verbatim>\<open>undefined\<close>.\<close>

definition isBlank :: "jsstring option \<Rightarrow> bool" where
  "isBlank v = (case v of None \<Rightarrow> True | Some s \<Rightarrow> s = [] \<or> trim s = [])"

text \<open>
  The header handling: the header fields after a possible \<^verbatim>\<open>push('filename')\<close>, the
  index of the filename column, and \<^verbatim>\<open>headerChanged\<close>.
\<close>

definition headerHandling :: "runtime \<Rightarrow> jsstring \<Rightarrow> jsstring list \<times> nat \<times> bool" where
  "headerHandling rt line0 =
     (let header = parseCsvLine line0;
          normalizedHeader = map (\<lambda>h. toLowerCase rt (trim h)) header
      in case indexOf normalizedHeader (js ''filename'') of
           None \<Rightarrow> (header @ [js ''filename''], length (header @ [js ''filename'']) - 1, True)
         | Some filenameIndex \<Rightarrow> (header, filenameIndex, False))"

text \<open>
  The \<^verbatim>\<open>for\<close> loop over the lines after the header. Its state is the array \<open>lines\<close>
  and the variables \<open>updated\<close> and \<open>updatedIndex\<close>; \<^verbatim>\<open>fields[1].trim()\<close> throws a
  TypeError when the row has a single field and the header has one column.
\<close>

function forLoop ::
  "nat \<Rightarrow> nat \<Rightarrow> jsstring \<Rightarrow> jsstring \<Rightarrow> jsstring \<Rightarrow> nat \<Rightarrow> jsstring list \<Rightarrow> bool \<Rightarrow> nat option
     \<Rightarrow> error + (jsstring list \<times> bool \<times> nat option)" where
  "forLoop headerLength filenameIndex city country filename i lines updated updatedIndex =
     (if i < length lines then
        let raw = lines ! i in
        if isBlank (Some raw) then
          forLoop headerLength filenameIndex city country filename (Suc i) lines updated updatedIndex
        else
          let flds = padFields headerLength (parseCsvLine raw) in
          case (jsGet flds 0, jsGet flds 1) of
            (Some field0, Some field1) \<Rightarrow>
              let rowCity = trim field0; rowCountry = trim field1 in
              if rowCity = city \<and> rowCountry = country then
                if \<not> updated \<and> isBlank (jsGet flds filenameIndex) then
                  Inr (lines[i := stringifyCsvLine (jsSet flds filenameIndex filename)],
                       True, Some i)
                else
                  forLoop headerLength filenameIndex city country filename (Suc i) lines updated
                    (if updatedIndex = None then Some i else updatedIndex)
              else
                forLoop headerLength filenameIndex city country filename (Suc i) lines updated
                  updatedIndex
          | _ \<Rightarrow> Inl TypeError
      else Inr (lines, updated, updatedIndex))"
  by pat_completeness auto
termination
  by (relation "measure (\<lambda>(hl, fi, c, k, f, i, ls, u, ui). length ls - i)") auto

declare forLoop.simps [simp del]

text \<open>
  The function on the array of lines, from the check of an empty file to the write of
  the header into \<open>lines[0]\<close>.
\<close>

definition updateLines ::
  "runtime \<Rightarrow> jsstring \<Rightarrow> jsstring \<Rightarrow> jsstring \<Rightarrow> jsstring list \<Rightarrow> error + jsstring list" where
  "updateLines rt city country filename lines0 =
     (if length lines0 = 0 then Inl CsvFileIsEmpty
      else
        let (header, filenameIndex, headerChanged) = headerHandling rt (lines0 ! 0) in
        case forLoop (length header) filenameIndex city country filename 1 lines0 False None of
          Inl e \<Rightarrow> Inl e
        | Inr (lines, updated, updatedIndex) \<Rightarrow>
            let lines' =
              (if \<not> updated then
                 (case updatedIndex of
                    Some u \<Rightarrow>
                      let flds = padFields (length header) (parseCsvLine (lines ! u))
                      in lines[u := stringifyCsvLine (jsSet flds filenameIndex filename)]
                  | None \<Rightarrow>
                      let newRow = padFields (length header) [city, country, []]
                      in lines @ [stringifyCsvLine (jsSet newRow filenameIndex filename)])
               else lines)
            in Inr (lines'[0 := stringifyCsvLine header]))"

text \<open>From the text read from the file to the text written to it.\<close>

definition updateCsvText ::
  "runtime \<Rightarrow> jsstring \<Rightarrow> jsstring \<Rightarrow> jsstring \<Rightarrow> jsstring \<Rightarrow> error + jsstring" where
  "updateCsvText rt city country filename original =
     (case updateLines rt city country filename (splitLines original) of
        Inl e \<Rightarrow> Inl e
      | Inr lines \<Rightarrow> Inr (joinWith 10 lines))"

subsection \<open>The files and the network\<close>

text \<open>
  What the action reads and changes: the CSV file \<^verbatim>\<open>src/app/file.csv\<close> (\<open>None\<close> when it
  cannot be read), the files of \<^verbatim>\<open>public/downloads\<close>, whether that directory exists,
  and the list of the URLs requested so far. \<^verbatim>\<open>mkdir\<close> and \<^verbatim>\<open>writeFile\<close> are taken to
  succeed. The answer of the network to a request is a parameter.
\<close>

record world =
  csvFile :: "jsstring option"
  downloads :: "jsstring \<rightharpoonup> int list"
  downloadsDir :: bool
  requests :: "jsstring list"

datatype fetch_result =
    FetchThrows
  | Response bool nat jsstring "int list"

definition ensureDir :: "world \<Rightarrow> world" where
  "ensureDir w = w\<lparr>downloadsDir := True\<rparr>"

definition downloadImageToPublic ::
  "(jsstring \<Rightarrow> fetch_result) \<Rightarrow> runtime \<Rightarrow> jsstring \<Rightarrow> jsstring \<Rightarrow> world
     \<Rightarrow> (error + jsstring) \<times> world" where
  "downloadImageToPublic net rt imageUrl baseName w =
     (let ext = getFileExtensionFromUrl rt imageUrl;
          filename = baseName @ [46] @ ext;
          w1 = ensureDir w;
          w2 = w1\<lparr>requests := requests w1 @ [imageUrl]\<rparr>
      in case net imageUrl of
           FetchThrows \<Rightarrow> (Inl FetchFailed, w2)
         | Response ok status statusText body \<Rightarrow>
             if \<not> ok then (Inl (FailedToDownloadImage status statusText), w2)
             else (Inr filename, w2\<lparr>downloads := (downloads w2)(filename \<mapsto> body)\<rparr>))"

definition updateCsvWithFilename ::
  "runtime \<Rightarrow> jsstring \<Rightarrow> jsstring \<Rightarrow> jsstring \<Rightarrow> world \<Rightarrow> (error + unit) \<times> world" where
  "updateCsvWithFilename rt city country filename w =
     (case csvFile w of
        None \<Rightarrow> (Inl FileSystemError, w)
      | Some original \<Rightarrow>
          (case updateCsvText rt city country filename original of
             Inl e \<Rightarrow> (Inl e, w)
           | Inr updatedCsv \<Rightarrow> (Inr (), w\<lparr>csvFile := Some updatedCsv\<rparr>)))"

subsection \<open>downloadImageAndUpdateCsv\<close>

datatype status = Idle | Success | Error

datatype message =
    MissingRequiredFields
  | InvalidImageId
  | DownloadedAndCsvUpdated
  | ErrorMessage error

record ActionState =
  state_status :: status
  state_message :: "message option"
  state_filename :: "jsstring option"

text \<open>
  An entry of the form data is a string or a file. \<^verbatim>\<open>String(formData.get(k) || '')\<close>
  is the empty string for a missing entry and for an empty one.
\<close>

datatype form_entry = TextEntry jsstring | FileEntry

definition formString :: "(jsstring \<rightharpoonup> form_entry) \<Rightarrow> jsstring \<Rightarrow> jsstring" where
  "formString formData k =
     (case formData k of
        None \<Rightarrow> []
      | Some (TextEntry s) \<Rightarrow> s
      | Some FileEntry \<Rightarrow> js ''[object File]'')"

text \<open>\<^verbatim>\<open>imageIdRaw.replace(/[^a-zA-Z0-9_-]/g, '')\<close>\<close>

definition sanitizeId :: "jsstring \<Rightarrow> jsstring" where
  "sanitizeId imageIdRaw = filter (\<lambda>c. isAlnum c \<or> c = 95 \<or> c = 45) imageIdRaw"

definition downloadImageAndUpdateCsv ::
  "(jsstring \<Rightarrow> fetch_result) \<Rightarrow> runtime \<Rightarrow> ActionState \<Rightarrow> (jsstring \<rightharpoonup> form_entry) \<Rightarrow> world
     \<Rightarrow> ActionState \<times> world" where
  "downloadImageAndUpdateCsv net rt prevState formData w =
     (let city = trim (formString formData (js ''city''));
          country = trim (formString formData (js ''country''));
          imageUrl = trim (formString formData (js ''imageUrl''));
          imageIdRaw = trim (formString formData (js ''imageId''))
      in if city = [] \<or> country = [] \<or> imageUrl = [] \<or> imageIdRaw = [] then
           (\<lparr>state_status = Error, state_message = Some MissingRequiredFields,
             state_filename = None\<rparr>, w)
         else
           let safeId = sanitizeId imageIdRaw in
           if safeId = [] then
             (\<lparr>state_status = Error, state_message = Some InvalidImageId,
               state_filename = None\<rparr>, w)
           else
             let baseName = toSlug rt city @ [45] @ toSlug rt country @ [45] @ safeId in
             case downloadImageToPublic net rt imageUrl baseName w of
               (Inl e, w1) \<Rightarrow>
                 (\<lparr>state_status = Error, state_message = Some (ErrorMessage e),
                   state_filename = None\<rparr>, w1)
             | (Inr filename, w1) \<Rightarrow>
                 (case updateCsvWithFilename rt city country filename w1 of
                    (Inl e, w2) \<Rightarrow>
                      (\<lparr>state_status = Error, state_message = Some (ErrorMessage e),
                        state_filename = None\<rparr>, w2)
                  | (Inr u, w2) \<Rightarrow>
                      (\<lparr>state_status = Success, state_message = Some DownloadedAndCsvUpdated,
                        state_filename = Some filename\<rparr>, w2)))"

section \<open>The image picker: gathering unseen results\<close>

record PixabayHit =
  hit_id :: jsstring
  tags :: jsstring
  previewURL :: jsstring
  webformatURL :: jsstring
  largeImageURL :: jsstring
  imageWidth :: "nat option"
  imageHeight :: "nat option"

datatype source = Pixabay | Unsplash | Pexels

text \<open>The search parameters of one request to \<^verbatim>\<open>/api/search\<close>.\<close>

record search_request =
  param_q :: jsstring
  param_per_page :: nat
  param_page :: nat
  param_source :: source

text \<open>
  What one request can bring: \<^verbatim>\<open>fetch\<close> throws, the response is not ok, \<^verbatim>\<open>res.json()\<close>
  throws, or there is a body, whose \<^verbatim>\<open>hits\<close> is an array (\<open>Some\<close>) or not.
\<close>

datatype search_response =
    SearchThrows
  | NotOk
  | JsonThrows
  | Body "PixabayHit list option"

text \<open>
  The \<^verbatim>\<open>for (const h of hits)\<close> loop, on the variables \<open>collected\<close> and \<open>currentSeen\<close>; the
  \<^verbatim>\<open>break\<close> leaves it when the sixth hit has been pushed.
\<close>

fun forHits ::
  "PixabayHit list \<Rightarrow> PixabayHit list \<Rightarrow> jsstring set \<Rightarrow> PixabayHit list \<times> jsstring set" where
  "forHits [] collected currentSeen = (collected, currentSeen)"
| "forHits (h # hits) collected currentSeen =
     (if hit_id h \<notin> currentSeen \<and> \<not> list_ex (\<lambda>c. hit_id c = hit_id h) collected then
        let collected' = collected @ [h];
            currentSeen' = insert (hit_id h) currentSeen
        in if length collected' \<ge> 6 then (collected', currentSeen')
           else forHits hits collected' currentSeen'
      else forHits hits collected currentSeen)"

text \<open>
  The \<^verbatim>\<open>while\<close> loop. Besides its variables it carries the list of the requests sent, so
  that the fetches can be counted; an exception ends it with \<open>Inl\<close>.
\<close>

definition searchUrl :: "jsstring \<Rightarrow> nat \<Rightarrow> source \<Rightarrow> search_request" where
  "searchUrl query page src =
     \<lparr>param_q = query, param_per_page = 18, param_page = page, param_source = src\<rparr>"

function whileLoop ::
  "(search_request \<Rightarrow> search_response) \<Rightarrow> jsstring \<Rightarrow> source \<Rightarrow> PixabayHit list \<Rightarrow> nat \<Rightarrow> nat
     \<Rightarrow> jsstring set \<Rightarrow> search_request list
     \<Rightarrow> (error + PixabayHit list \<times> nat \<times> nat \<times> jsstring set) \<times> search_request list" where
  "whileLoop api query src collected page attempts currentSeen sent =
     (if length collected < 6 \<and> attempts < 5 then
        let url = searchUrl query page src;
            sent' = sent @ [url]
        in case api url of
             SearchThrows \<Rightarrow> (Inl FetchFailed, sent')
           | NotOk \<Rightarrow> (Inl SearchFailed, sent')
           | JsonThrows \<Rightarrow> (Inl FetchFailed, sent')
           | Body data_hits \<Rightarrow>
               let hits = (case data_hits of Some hs \<Rightarrow> hs | None \<Rightarrow> []);
                   (collected', currentSeen') = forHits hits collected currentSeen
               in if length hits = 0 then
                    (Inr (collected', page + 1, attempts + 1, currentSeen'), sent')
                  else whileLoop api query src collected' (page + 1) (attempts + 1)
                         currentSeen' sent'
      else (Inr (collected, page, attempts, currentSeen), sent))"
  by pat_completeness auto
termination
  by (relation "measure (\<lambda>(api, query, src, collected, page, attempts, seen, sent). 5 - attempts)")
     auto

declare whileLoop.simps [simp del]

text \<open>
  The \<^verbatim>\<open>try\<close> block with its \<^verbatim>\<open>catch\<close>: the batch handed to \<^verbatim>\<open>setImages\<close>, the value
  for \<^verbatim>\<open>seenIdsRef.current\<close> (\<open>None\<close> when it is left alone), and the requests sent.
\<close>

definition gather ::
  "(search_request \<Rightarrow> search_response) \<Rightarrow> jsstring \<Rightarrow> source \<Rightarrow> nat \<Rightarrow> jsstring set
     \<Rightarrow> PixabayHit list \<times> jsstring set option \<times> search_request list" where
  "gather api query src pageNumber seenIds =
     (case whileLoop api query src [] pageNumber 0 seenIds [] of
        (Inr (collected, page, attempts, currentSeen), sent) \<Rightarrow> (collected, Some currentSeen, sent)
      | (Inl e, sent) \<Rightarrow> ([], None, sent))"

text \<open>The state of the component that the effect and the refresh button touch.\<close>

record picker_state =
  images :: "PixabayHit list"
  loading :: bool
  refreshing :: bool
  pageNum :: nat
  seenIdsRef :: "jsstring set"

text \<open>
  The effect. \<open>aborted\<close> tells whether the effect had been cleaned up (the query, the page
  or the source changed) when the gathering ended: then nothing is stored.
\<close>

definition loadUnique ::
  "(search_request \<Rightarrow> search_response) \<Rightarrow> jsstring \<Rightarrow> source \<Rightarrow> bool \<Rightarrow> picker_state
     \<Rightarrow> picker_state \<times> search_request list" where
  "loadUnique api query src aborted st =
     (if query = [] then (st, [])
      else
        let st1 = st\<lparr>loading := True\<rparr>;
            (batch, seen, sent) = gather api query src (pageNum st) (seenIdsRef st)
        in if aborted then (st1, sent)
           else
             (st1\<lparr>seenIdsRef := (case seen of Some s \<Rightarrow> s | None \<Rightarrow> seenIdsRef st1),
                  images := batch, loading := False, refreshing := False\<rparr>, sent))"

definition handleRefresh :: "bool \<Rightarrow> picker_state \<Rightarrow> picker_state" where
  "handleRefresh isPending st =
     (if loading st \<or> refreshing st \<or> isPending then st
      else st\<lparr>refreshing := True, pageNum := pageNum st + 1\<rparr>)"

section \<open>The page: loading the locations\<close>

text \<open>
  The page reads the same CSV file and hands its rows without a filename to the picker.
  The fields \<^verbatim>\<open>city\<close>, \<^verbatim>\<open>country\<close>, \<^verbatim>\<open>type\<close> and \<^verbatim>\<open>filename\<close> of a \<^verbatim>\<open>LocationRow\<close> carry
  the prefix \<open>loc_\<close> here.
\<close>

record LocationRow =
  loc_city :: jsstring
  loc_country :: jsstring
  loc_type :: "jsstring option"
  loc_filename :: "jsstring option"

text \<open>
  \<^verbatim>\<open>fields[idx] ? String(fields[idx]).trim() : ''\<close>, where \<^verbatim>\<open>idx\<close> is \<open>-1\<close> (\<open>None\<close>) when the
  header has no such column: an undefined field and an empty one both give the empty
  string.
\<close>

definition requiredField :: "jsstring list \<Rightarrow> nat option \<Rightarrow> jsstring" where
  "requiredField flds idx =
     (case idx of
        None \<Rightarrow> []
      | Some k \<Rightarrow> (case jsGet flds k of None \<Rightarrow> [] | Some v \<Rightarrow> if v = [] then [] else trim v))"

text \<open>\<^verbatim>\<open>idx >= 0 ? String(fields[idx] || '').trim() : undefined\<close>\<close>

definition optionalField :: "jsstring list \<Rightarrow> nat option \<Rightarrow> jsstring option" where
  "optionalField flds idx =
     (case idx of
        None \<Rightarrow> None
      | Some k \<Rightarrow> Some (trim (case jsGet flds k of None \<Rightarrow> [] | Some v \<Rightarrow> v)))"

text \<open>
  The \<^verbatim>\<open>for\<close> loop over the lines after the header: a blank line and a row without city
  or country are skipped, every other row is pushed.
\<close>

fun forRows ::
  "nat option \<Rightarrow> nat option \<Rightarrow> nat option \<Rightarrow> nat option \<Rightarrow> jsstring list \<Rightarrow> LocationRow list" where
  "forRows cityIdx countryIdx typeIdx filenameIdx [] = []"
| "forRows cityIdx countryIdx typeIdx filenameIdx (line # rest) =
     (if isBlank (Some line) then forRows cityIdx countryIdx typeIdx filenameIdx rest
      else
        let flds = splitOn 44 line;
            city = requiredField flds cityIdx;
            country = requiredField flds countryIdx
        in if city = [] \<or> country = [] then forRows cityIdx countryIdx typeIdx filenameIdx rest
           else \<lparr>loc_city = city, loc_country = country,
                  loc_type = optionalField flds typeIdx,
                  loc_filename = optionalField flds filenameIdx\<rparr> #
                forRows cityIdx countryIdx typeIdx filenameIdx rest)"

definition loadLocations :: "runtime \<Rightarrow> world \<Rightarrow> error + LocationRow list" where
  "loadLocations rt w =
     (case csvFile w of
        None \<Rightarrow> Inl FileSystemError
      | Some text \<Rightarrow>
          let lines = splitLines text in
          if length lines \<le> 1 then Inr []
          else
            let header = map (\<lambda>h. toLowerCase rt (trim h)) (splitOn 44 (lines ! 0));
                cityIdx = indexOf header (js ''city'');
                countryIdx = indexOf header (js ''country'');
                typeIdx = indexOf header (js ''type'');
                filenameIdx = indexOf header (js ''filename'')
            in Inr (forRows cityIdx countryIdx typeIdx filenameIdx (drop 1 lines)))"

section \<open>Notions used to state the properties\<close>

subsection \<open>The image picker\<close>

text \<open>A request failed: \<^verbatim>\<open>fetch\<close> or \<^verbatim>\<open>res.json()\<close> threw, or the response was not ok.\<close>

definition isFailure :: "search_response \<Rightarrow> bool" where
  "isFailure r = (case r of Body d \<Rightarrow> False | _ \<Rightarrow> True)"

text \<open>The raw results of a page, as the loop reads them.\<close>

definition rawHits :: "search_response \<Rightarrow> PixabayHit list" where
  "rawHits r = (case r of Body (Some hs) \<Rightarrow> hs | _ \<Rightarrow> [])"

text \<open>
  The invariant of both loops, for the seen set \<open>seen0\<close> the gathering started with: no
  collected hit is in \<open>seen0\<close>, no two collected hits share an id, and \<open>currentSeen\<close> has
  only grown.
\<close>

definition batchOk :: "jsstring set \<Rightarrow> PixabayHit list \<Rightarrow> jsstring set \<Rightarrow> bool" where
  "batchOk seen0 collected currentSeen \<longleftrightarrow>
     (\<forall>h\<in>set collected. hit_id h \<notin> seen0) \<and> distinct (map hit_id collected) \<and>
     seen0 \<subseteq> currentSeen"

text \<open>The requests for \<open>n\<close> successive pages from \<open>page\<close> on.\<close>

definition pagesFrom :: "jsstring \<Rightarrow> source \<Rightarrow> nat \<Rightarrow> nat \<Rightarrow> search_request list" where
  "pagesFrom query src page n = map (\<lambda>k. searchUrl query (page + k) src) [0..<n]"

text \<open>
  A provider for the examples: page 1 has eighteen hits, page 2 answers \<open>second\<close>, and
  every later page has two more hits.
\<close>

definition demoHit :: "int \<Rightarrow> PixabayHit" where
  "demoHit n = \<lparr>hit_id = [105, 100, n], tags = js ''photo'', previewURL = [], webformatURL = [],
     largeImageURL = [], imageWidth = None, imageHeight = None\<rparr>"

definition demoApi :: "search_response \<Rightarrow> search_request \<Rightarrow> search_response" where
  "demoApi second r =
     (if param_page r = 1 then
        Body (Some (map demoHit
          [48, 49, 50, 51, 52, 53, 54, 55, 56, 57, 97, 98, 99, 100, 101, 102, 103, 104]))
      else if param_page r = 2 then second
      else Body (Some [demoHit 120, demoHit 121]))"

definition demoSeen :: "int list \<Rightarrow> jsstring set" where
  "demoSeen ns = set (map (\<lambda>n. hit_id (demoHit n)) ns)"

definition demoState :: "int list \<Rightarrow> picker_state" where
  "demoState ns = \<lparr>images = [demoHit 48], loading = False, refreshing = True, pageNum = 1,
     seenIdsRef = demoSeen ns\<rparr>"

subsection \<open>The server action\<close>

text \<open>
  A runtime for the examples. Its tables know one letter beyond ASCII: \<open>195\<close> is the
  capital of \<open>227\<close>, a with tilde, which decomposes into \<open>a\<close> and the combining tilde
  \<open>771\<close>. Its URL parser knows the URLs of one host.
\<close>

definition demoRuntime :: runtime where
  "demoRuntime =
     \<lparr>unicodeLower = map (\<lambda>c. if c = 195 then 227 else asciiLower c),
      unicodeNFKD = (\<lambda>s. concat (map (\<lambda>c. if c = 227 then [97, 771] else [c]) s)),
      urlPathname = (\<lambda>url. if take 19 url = js ''https://example.com'' then Some (drop 19 url) else None)\<rparr>"

definition demoForm :: "jsstring \<Rightarrow> jsstring \<Rightarrow> jsstring \<Rightarrow> jsstring \<Rightarrow> (jsstring \<rightharpoonup> form_entry)" where
  "demoForm city country imageId imageUrl =
     [js ''city'' \<mapsto> TextEntry city, js ''country'' \<mapsto> TextEntry country,
      js ''imageId'' \<mapsto> TextEntry imageId, js ''imageUrl'' \<mapsto> TextEntry imageUrl]"

definition demoWorld :: "jsstring \<Rightarrow> world" where
  "demoWorld csv = \<lparr>csvFile = Some csv, downloads = Map.empty, downloadsDir = False, requests = []\<rparr>"

definition demoNet :: "jsstring \<Rightarrow> fetch_result" where
  "demoNet url = Response True 200 (js ''OK'') [255, 216, 255]"

definition idleState :: ActionState where
  "idleState = \<lparr>state_status = Idle, state_message = None, state_filename = None\<rparr>"

text \<open>
  Digits and small letters. The characters of a string that a slug keeps: letters,
  digits and hyphens. A word: a string without white space and underscores that holds
  such a character. A run: a non-empty string of white space and underscores.
\<close>

definition isLowerAlnum :: "int \<Rightarrow> bool" where
  "isLowerAlnum c \<longleftrightarrow> (48 \<le> c \<and> c \<le> 57) \<or> (97 \<le> c \<and> c \<le> 122)"

definition keptChars :: "jsstring \<Rightarrow> jsstring" where
  "keptChars u = filter (\<lambda>c. isAlnum c \<or> c = 45) u"

definition isSlugWord :: "jsstring \<Rightarrow> bool" where
  "isSlugWord u \<longleftrightarrow>
     list_all (\<lambda>c. \<not> isSlugSeparator c) u \<and> list_ex (\<lambda>c. isAlnum c \<or> c = 45) u"

definition isSeparatorRun :: "jsstring \<Rightarrow> bool" where
  "isSeparatorRun r \<longleftrightarrow> r \<noteq> [] \<and> list_all isSlugSeparator r"

text \<open>
  A request that passes the validation of the action: the four fields are not empty
  after trimming and the image id keeps a character. The file name of the
  specification for a request: the slug of the city, a hyphen, the slug of the country,
  a hyphen, the sanitized image id, a dot and the extension taken from the URL.
\<close>

definition accepted :: "(jsstring \<rightharpoonup> form_entry) \<Rightarrow> bool" where
  "accepted formData \<longleftrightarrow>
     trim (formString formData (js ''city'')) \<noteq> [] \<and>
     trim (formString formData (js ''country'')) \<noteq> [] \<and>
     trim (formString formData (js ''imageUrl'')) \<noteq> [] \<and>
     trim (formString formData (js ''imageId'')) \<noteq> [] \<and>
     sanitizeId (trim (formString formData (js ''imageId''))) \<noteq> []"

definition pickedFilename :: "runtime \<Rightarrow> (jsstring \<rightharpoonup> form_entry) \<Rightarrow> jsstring" where
  "pickedFilename rt formData =
     toSlug rt (trim (formString formData (js ''city''))) @ [45] @
     toSlug rt (trim (formString formData (js ''country''))) @ [45] @
     sanitizeId (trim (formString formData (js ''imageId''))) @ [46] @
     getFileExtensionFromUrl rt (trim (formString formData (js ''imageUrl'')))"

subsection \<open>The rows of the table and the three-way policy\<close>

text \<open>
  The fields of a row as the loop sees them, padded to the length of the header; the test
  that a line is a row whose first two fields are the key, after trimming; the test that
  its filename field is empty, which for the source means blank; and the row with the
  filename written into its field.
\<close>

definition rowFields :: "nat \<Rightarrow> jsstring \<Rightarrow> jsstring list" where
  "rowFields headerLength raw = padFields headerLength (parseCsvLine raw)"

definition keyMatches :: "nat \<Rightarrow> jsstring \<Rightarrow> jsstring \<Rightarrow> jsstring \<Rightarrow> bool" where
  "keyMatches headerLength city country raw \<longleftrightarrow>
     \<not> isBlank (Some raw) \<and>
     (case (jsGet (rowFields headerLength raw) 0, jsGet (rowFields headerLength raw) 1) of
        (Some field0, Some field1) \<Rightarrow> trim field0 = city \<and> trim field1 = country
      | _ \<Rightarrow> False)"

definition filenameEmpty :: "nat \<Rightarrow> nat \<Rightarrow> jsstring \<Rightarrow> bool" where
  "filenameEmpty headerLength filenameIndex raw \<longleftrightarrow>
     isBlank (jsGet (rowFields headerLength raw) filenameIndex)"

definition withFilename :: "nat \<Rightarrow> nat \<Rightarrow> jsstring \<Rightarrow> jsstring \<Rightarrow> jsstring" where
  "withFilename headerLength filenameIndex filename raw =
     stringifyCsvLine (jsSet (rowFields headerLength raw) filenameIndex filename)"

text \<open>
  The fields of an appended row: the city, the country, the filename in its column, and
  the other fields empty, the later writes winning.
\<close>

definition newRowFields :: "nat \<Rightarrow> nat \<Rightarrow> jsstring \<Rightarrow> jsstring \<Rightarrow> jsstring \<Rightarrow> jsstring list" where
  "newRowFields headerLength filenameIndex city country filename =
     (replicate (max headerLength 3) [])[0 := city, 1 := country, filenameIndex := filename]"

text \<open>
  The decision table of the specification: a matching row with an empty filename is
  preferred, the first one of them; else the first matching row; else no row is found.
  The rows are the lines after the header, by their index.
\<close>

datatype row_status = NotFound | FoundEmpty nat | FoundFilled nat

definition rowStatus :: "nat \<Rightarrow> nat \<Rightarrow> jsstring \<Rightarrow> jsstring \<Rightarrow> jsstring list \<Rightarrow> row_status" where
  "rowStatus headerLength filenameIndex city country lines =
     (case find (\<lambda>i. keyMatches headerLength city country (lines ! i) \<and>
                      filenameEmpty headerLength filenameIndex (lines ! i)) [1..<length lines] of
        Some i \<Rightarrow> FoundEmpty i
      | None \<Rightarrow>
          (case find (\<lambda>i. keyMatches headerLength city country (lines ! i)) [1..<length lines] of
             Some i \<Rightarrow> FoundFilled i
           | None \<Rightarrow> NotFound))"

definition applyPolicy ::
  "nat \<Rightarrow> nat \<Rightarrow> jsstring \<Rightarrow> jsstring \<Rightarrow> jsstring \<Rightarrow> jsstring list \<Rightarrow> jsstring list" where
  "applyPolicy headerLength filenameIndex city country filename lines =
     (case rowStatus headerLength filenameIndex city country lines of
        FoundEmpty i \<Rightarrow> lines[i := withFilename headerLength filenameIndex filename (lines ! i)]
      | FoundFilled i \<Rightarrow> lines[i := withFilename headerLength filenameIndex filename (lines ! i)]
      | NotFound \<Rightarrow>
          lines @ [stringifyCsvLine
                     (newRowFields headerLength filenameIndex city country filename)])"

text \<open>What the \<^verbatim>\<open>for\<close> loop computes from line \<open>i\<close> on, in terms of searches.\<close>

definition loopResult ::
  "nat \<Rightarrow> nat \<Rightarrow> jsstring \<Rightarrow> jsstring \<Rightarrow> jsstring \<Rightarrow> nat \<Rightarrow> jsstring list \<Rightarrow> nat option
     \<Rightarrow> error + (jsstring list \<times> bool \<times> nat option)" where
  "loopResult headerLength filenameIndex city country filename i lines updatedIndex =
     (case find (\<lambda>j. keyMatches headerLength city country (lines ! j) \<and>
                      filenameEmpty headerLength filenameIndex (lines ! j)) [i..<length lines] of
        Some j \<Rightarrow>
          Inr (lines[j := withFilename headerLength filenameIndex filename (lines ! j)], True, Some j)
      | None \<Rightarrow>
          Inr (lines, False,
               (case updatedIndex of
                  Some u \<Rightarrow> Some u
                | None \<Rightarrow> find (\<lambda>j. keyMatches headerLength city country (lines ! j))
                            [i..<length lines])))"

subsection \<open>Applying the update twice\<close>





section \<open>Properties of the image picker\<close>

subsection \<open>The two loops keep the batch unseen, distinct and short\<close>

lemma forHits_batchOk:
  "forHits hits c s = (c', s') \<Longrightarrow> length c < 6 \<Longrightarrow> batchOk seen0 c s
     \<Longrightarrow> batchOk seen0 c' s' \<and> length c' \<le> 6"
proof (induction hits c s rule: forHits.induct)
  case (1 collected currentSeen)
  then show ?case by simp
next
  case (2 h hits collected currentSeen)
  show ?case
  proof (cases "hit_id h \<notin> currentSeen \<and> \<not> list_ex (\<lambda>c. hit_id c = hit_id h) collected")
    case novel: True
    let ?c = "collected @ [h]" and ?s = "insert (hit_id h) currentSeen"
    have ok: "batchOk seen0 ?c ?s"
      using novel "2.prems"(3) by (auto simp: batchOk_def list_ex_iff)
    show ?thesis
    proof (cases "length ?c \<ge> 6")
      case True
      with novel "2.prems" ok show ?thesis by auto
    next
      case False
      with novel "2.prems"(1) have "forHits hits ?c ?s = (c', s')" by (simp add: Let_def)
      moreover from False have "length ?c < 6" by simp
      ultimately show ?thesis using "2.IH"(1)[OF novel refl refl False _ _ ok] by blast
    qed
  next
    case False
    with "2.prems"(1) have "forHits hits collected currentSeen = (c', s')" by auto
    then show ?thesis using "2.IH"(2)[OF False] "2.prems" by blast
  qed
qed

lemma whileLoop_batchOk:
  "whileLoop api query src c page attempts s sent = (Inr (c', page', attempts', s'), sent')
     \<Longrightarrow> length c \<le> 6 \<Longrightarrow> batchOk seen0 c s \<Longrightarrow> batchOk seen0 c' s' \<and> length c' \<le> 6"
proof (induction api query src c page attempts s sent rule: whileLoop.induct)
  case (1 api query src collected page attempts currentSeen sent)
  note run = "1.prems"(1)
  show ?case
  proof (cases "length collected < 6 \<and> attempts < 5")
    case False
    with run "1.prems" show ?thesis by (simp add: whileLoop.simps[of _ _ _ collected])
  next
    case go: True
    show ?thesis
    proof (cases "api (searchUrl query page src)")
      case (Body d)
      let ?hits = "case d of None \<Rightarrow> [] | Some hs \<Rightarrow> hs"
      obtain c1 s1 where fh: "forHits ?hits collected currentSeen = (c1, s1)"
        by (cases "forHits ?hits collected currentSeen")
      from go have "length collected < 6" by simp
      from forHits_batchOk[OF fh this "1.prems"(3)]
      have ok1: "batchOk seen0 c1 s1" and len1: "length c1 \<le> 6" by simp_all
      show ?thesis
      proof (cases "length ?hits = 0")
        case True
        with run go Body fh ok1 len1 show ?thesis
          by (simp add: whileLoop.simps[of _ _ _ collected] Let_def)
      next
        case False
        with run go Body fh
        have "whileLoop api query src c1 (page + 1) (attempts + 1) s1
                (sent @ [searchUrl query page src]) = (Inr (c', page', attempts', s'), sent')"
          by (simp add: whileLoop.simps[of _ _ _ collected] Let_def)
        from "1.IH"[OF go refl refl Body refl refl fh[symmetric] False this len1 ok1]
        show ?thesis .
      qed
    qed (use run go in \<open>simp_all add: whileLoop.simps[of _ _ _ collected] Let_def\<close>)
  qed
qed

lemma forHits_all_seen:
  "\<forall>h\<in>set hits. hit_id h \<in> s \<Longrightarrow> forHits hits c s = (c, s)"
  by (induction hits) auto

subsection \<open>The requests a gathering sends\<close>

lemma pagesFrom_Suc:
  "pagesFrom query src page (Suc n) = searchUrl query page src # pagesFrom query src (Suc page) n"
  unfolding pagesFrom_def by (simp add: upt_conv_Cons map_Suc_upt[symmetric] del: upt_Suc)

lemma pagesFrom_nth: "k < n \<Longrightarrow> pagesFrom query src page n ! k = searchUrl query (page + k) src"
  by (simp add: pagesFrom_def)

lemma length_pagesFrom: "length (pagesFrom query src page n) = n"
  by (simp add: pagesFrom_def)

lemma whileLoop_sent:
  "whileLoop api query src c page attempts s sent = (res, sent') \<Longrightarrow>
   \<exists>n. sent' = sent @ pagesFrom query src page n \<and> n \<le> 5 - attempts \<and>
       (\<forall>k. Suc k < n \<longrightarrow> rawHits (api (searchUrl query (page + k) src)) \<noteq> []) \<and>
       (isl res \<longleftrightarrow> 0 < n \<and> isFailure (api (searchUrl query (page + (n - 1)) src)))"
proof (induction api query src c page attempts s sent rule: whileLoop.induct)
  case (1 api query src collected page attempts currentSeen sent)
  note run = "1.prems"(1)
  let ?url = "searchUrl query page src"
  show ?case
  proof (cases "length collected < 6 \<and> attempts < 5")
    case False
    with run have "sent' = sent" "\<not> isl res"
      by (auto simp: whileLoop.simps[of _ _ _ collected])
    then show ?thesis by (intro exI[of _ 0]) (simp add: pagesFrom_def)
  next
    case go: True
    have one: "sent' = sent @ [?url] \<Longrightarrow> isl res = isFailure (api ?url) \<Longrightarrow> ?thesis"
      using go by (intro exI[of _ 1]) (auto simp: pagesFrom_def)
    show ?thesis
    proof (cases "api ?url")
      case (Body d)
      let ?hits = "case d of None \<Rightarrow> [] | Some hs \<Rightarrow> hs"
      obtain c1 s1 where fh: "forHits ?hits collected currentSeen = (c1, s1)"
        by (cases "forHits ?hits collected currentSeen")
      show ?thesis
      proof (cases "length ?hits = 0")
        case True
        with run go Body fh have "sent' = sent @ [?url]" "\<not> isl res"
          by (auto simp: whileLoop.simps[of _ _ _ collected] Let_def)
        with Body show ?thesis by (intro one) (simp_all add: isFailure_def)
      next
        case False
        with run go Body fh
        have "whileLoop api query src c1 (page + 1) (attempts + 1) s1 (sent @ [?url]) = (res, sent')"
          by (simp add: whileLoop.simps[of _ _ _ collected] Let_def)
        from "1.IH"[OF go refl refl Body refl refl fh[symmetric] False this]
        obtain n where n: "sent' = (sent @ [?url]) @ pagesFrom query src (page + 1) n"
          "n \<le> 5 - (attempts + 1)"
          "\<forall>k. Suc k < n \<longrightarrow> rawHits (api (searchUrl query (page + 1 + k) src)) \<noteq> []"
          "isl res \<longleftrightarrow> 0 < n \<and> isFailure (api (searchUrl query (page + 1 + (n - 1)) src))"
          by blast
        have raw: "rawHits (api ?url) \<noteq> []"
          using Body False by (cases d) (simp_all add: rawHits_def)
        have notfail: "\<not> isFailure (api ?url)"
          using Body by (simp add: isFailure_def)
        have "sent' = sent @ pagesFrom query src page (Suc n)"
          using n(1) by (simp add: pagesFrom_Suc)
        moreover have "Suc n \<le> 5 - attempts"
          using n(2) go by auto
        moreover have "\<forall>k. Suc k < Suc n \<longrightarrow> rawHits (api (searchUrl query (page + k) src)) \<noteq> []"
        proof (intro allI impI)
          fix k assume k: "Suc k < Suc n"
          show "rawHits (api (searchUrl query (page + k) src)) \<noteq> []"
          proof (cases k)
            case 0
            with raw show ?thesis by simp
          next
            case (Suc j)
            with k n(3) have "rawHits (api (searchUrl query (page + 1 + j) src)) \<noteq> []" by simp
            with Suc show ?thesis by simp
          qed
        qed
        moreover have "isl res \<longleftrightarrow> 0 < Suc n \<and> isFailure (api (searchUrl query (page + (Suc n - 1)) src))"
        proof (cases n)
          case 0
          with n(4) notfail show ?thesis by simp
        next
          case (Suc m)
          with n(4) show ?thesis by simp
        qed
        ultimately show ?thesis by blast
      qed
    next
      case SearchThrows
      with run go have "sent' = sent @ [?url]" "isl res"
        by (auto simp: whileLoop.simps[of _ _ _ collected] Let_def)
      with SearchThrows show ?thesis by (intro one) (simp_all add: isFailure_def)
    next
      case NotOk
      with run go have "sent' = sent @ [?url]" "isl res"
        by (auto simp: whileLoop.simps[of _ _ _ collected] Let_def)
      with NotOk show ?thesis by (intro one) (simp_all add: isFailure_def)
    next
      case JsonThrows
      with run go have "sent' = sent @ [?url]" "isl res"
        by (auto simp: whileLoop.simps[of _ _ _ collected] Let_def)
      with JsonThrows show ?thesis by (intro one) (simp_all add: isFailure_def)
    qed
  qed
qed

lemma gather_sent:
  obtains n where
    "snd (snd (gather api query src pageNumber seenIds)) = pagesFrom query src pageNumber n"
    "n \<le> 5"
    "\<forall>k. Suc k < n \<longrightarrow> rawHits (api (searchUrl query (pageNumber + k) src)) \<noteq> []"
    "fst (snd (gather api query src pageNumber seenIds)) = None \<longleftrightarrow>
       0 < n \<and> isFailure (api (searchUrl query (pageNumber + (n - 1)) src))"
    "fst (snd (gather api query src pageNumber seenIds)) = None \<longrightarrow>
       fst (gather api query src pageNumber seenIds) = []"
proof (cases "whileLoop api query src [] pageNumber 0 seenIds []")
  case (Pair res sent)
  from whileLoop_sent[OF Pair] obtain n where
    n: "sent = [] @ pagesFrom query src pageNumber n \<and> n \<le> 5 - 0 \<and>
       (\<forall>k. Suc k < n \<longrightarrow> rawHits (api (searchUrl query (pageNumber + k) src)) \<noteq> []) \<and>
       (isl res \<longleftrightarrow> 0 < n \<and> isFailure (api (searchUrl query (pageNumber + (n - 1)) src)))"
    ..
  have "snd (snd (gather api query src pageNumber seenIds)) = sent"
    using Pair by (simp add: gather_def split: sum.splits prod.splits)
  moreover have "fst (snd (gather api query src pageNumber seenIds)) = None \<longleftrightarrow> isl res"
    using Pair by (auto simp: gather_def split: sum.splits prod.splits)
  moreover have "isl res \<longrightarrow> fst (gather api query src pageNumber seenIds) = []"
    using Pair by (auto simp: gather_def split: sum.splits prod.splits)
  ultimately show ?thesis using n by (intro that[of n]) simp_all
qed

lemma gather_stop_on_empty_page:
  assumes first: "api (searchUrl query p src) = Body (Some hits)" "hits \<noteq> []"
      and seen: "\<forall>h\<in>set hits. hit_id h \<in> seenIds"
      and second: "rawHits (api (searchUrl query (p + 1) src)) = []"
                  "\<not> isFailure (api (searchUrl query (p + 1) src))"
  shows "gather api query src p seenIds =
           ([], Some seenIds, [searchUrl query p src, searchUrl query (p + 1) src])"
proof -
  from second obtain d where d: "api (searchUrl query (p + 1) src) = Body d"
      "(case d of None \<Rightarrow> [] | Some hs \<Rightarrow> hs) = []"
    by (cases "api (searchUrl query (p + 1) src)")
       (auto simp: isFailure_def rawHits_def split: option.splits)
  have step2: "whileLoop api query src [] (p + 1) 1 seenIds [searchUrl query p src] =
      (Inr ([], p + 2, 2, seenIds), [searchUrl query p src, searchUrl query (p + 1) src])"
    by (subst whileLoop.simps) (simp add: d[simplified] Let_def)
  have "whileLoop api query src [] p 0 seenIds [] =
      whileLoop api query src [] (p + 1) 1 seenIds [searchUrl query p src]"
    by (subst whileLoop.simps) (simp add: first Let_def forHits_all_seen[OF seen])
  with step2 show ?thesis by (simp add: gather_def)
qed

subsection \<open>Claims\<close>

text \<open>
  Claim C2. Whatever the seen set handed to a gathering, the query and the pages the
  provider answers, the batch that the gathering hands over holds no result whose id is in
  that seen set, holds no two results with the same id, and has at most six results.
\<close>

theorem gather_batch_unseen_distinct_bounded:
  "(\<forall>h\<in>set (fst (gather api query src pageNumber seenIds)). hit_id h \<notin> seenIds) \<and>
   distinct (map hit_id (fst (gather api query src pageNumber seenIds))) \<and>
   length (fst (gather api query src pageNumber seenIds)) \<le> 6"
proof (cases "whileLoop api query src [] pageNumber 0 seenIds []")
  case (Pair res sent)
  show ?thesis
  proof (cases res)
    case (Inl e)
    with Pair show ?thesis by (simp add: gather_def)
  next
    case (Inr r)
    then obtain c p a s where r: "res = Inr (c, p, a, s)" by (cases r) auto
    have "batchOk seenIds [] seenIds" by (simp add: batchOk_def)
    from whileLoop_batchOk[OF Pair[unfolded r] _ this]
    have "batchOk seenIds c s \<and> length c \<le> 6" by simp
    with Pair r show ?thesis by (simp add: gather_def batchOk_def)
  qed
qed

text \<open>
  An instance: sixteen of the eighteen hits of page 1 are new, and the batch is the first
  six of them.
\<close>

theorem gather_batch_unseen_distinct_bounded_witness:
  "fst (gather (demoApi (Body (Some []))) (js ''Rome Italy'') Pixabay 1 (demoSeen [48, 50])) =
     map demoHit [49, 51, 52, 53, 54, 55] \<and>
   list_all (\<lambda>h. hit_id h \<notin> demoSeen [48, 50]) (map demoHit [49, 51, 52, 53, 54, 55]) \<and>
   distinct (map hit_id (map demoHit [49, 51, 52, 53, 54, 55])) \<and>
   length (map demoHit [49, 51, 52, 53, 54, 55]) \<le> 6"
proof -
  have e: "fst (gather (demoApi (Body (Some []))) (js ''Rome Italy'') Pixabay 1 (demoSeen [48, 50])) =
     map demoHit [49, 51, 52, 53, 54, 55]"
    by code_simp
  show ?thesis
    using gather_batch_unseen_distinct_bounded[of "demoApi (Body (Some []))" "js ''Rome Italy''" Pixabay 1 "demoSeen [48, 50]"]
    unfolding e list_all_iff by blast
qed

text \<open>
  Claim C5. From every starting page and seen set a gathering sends at most five
  requests, for successive pages, and it stops at the first page without raw results: every
  request but the last was answered with at least one result. So when all the results of
  the first page have been seen and the second page is empty, the gathering ends after the
  second request with an empty batch.
\<close>

theorem gather_at_most_five_requests:
  "length (snd (snd (gather api query src pageNumber seenIds))) \<le> 5 \<and>
   snd (snd (gather api query src pageNumber seenIds)) =
     pagesFrom query src pageNumber (length (snd (snd (gather api query src pageNumber seenIds)))) \<and>
   (\<forall>r\<in>set (butlast (snd (snd (gather api query src pageNumber seenIds)))).
      rawHits (api r) \<noteq> []) \<and>
   (api (searchUrl query pageNumber src) = Body (Some hits) \<and> hits \<noteq> [] \<and>
    (\<forall>h\<in>set hits. hit_id h \<in> seenIds) \<and>
    rawHits (api (searchUrl query (pageNumber + 1) src)) = [] \<and>
    \<not> isFailure (api (searchUrl query (pageNumber + 1) src))
    \<longrightarrow> gather api query src pageNumber seenIds =
          ([], Some seenIds,
           [searchUrl query pageNumber src, searchUrl query (pageNumber + 1) src]))"
proof -
  let ?sent = "snd (snd (gather api query src pageNumber seenIds))"
  obtain n where
    n: "?sent = pagesFrom query src pageNumber n" "n \<le> 5"
       "\<forall>k. Suc k < n \<longrightarrow> rawHits (api (searchUrl query (pageNumber + k) src)) \<noteq> []"
    by (rule gather_sent[of api query src pageNumber seenIds])
  have len: "length ?sent = n" by (simp add: n(1) length_pagesFrom)
  have "\<forall>r\<in>set (butlast ?sent). rawHits (api r) \<noteq> []"
  proof
    fix r assume "r \<in> set (butlast ?sent)"
    then obtain k where k: "k < length (butlast ?sent)" "r = butlast ?sent ! k"
      by (auto simp: in_set_conv_nth)
    then have "Suc k < n" using len by simp
    moreover from this k have "r = searchUrl query (pageNumber + k) src"
      by (simp add: nth_butlast n(1) pagesFrom_nth len[unfolded n(1)])
    ultimately show "rawHits (api r) \<noteq> []" using n(3) by simp
  qed
  moreover have "?sent = pagesFrom query src pageNumber (length ?sent)"
    using n(1) len by simp
  ultimately show ?thesis
    using len n(2) gather_stop_on_empty_page[of api query pageNumber src hits seenIds] by blast
qed

text \<open>The scenario of the claim: eighteen seen results on page 1, none on page 2.\<close>

theorem gather_at_most_five_requests_witness:
  "gather (demoApi (Body (Some []))) (js ''Rome Italy'') Pixabay 1
      (demoSeen [48, 49, 50, 51, 52, 53, 54, 55, 56, 57, 97, 98, 99, 100, 101, 102, 103, 104]) =
   ([], Some (demoSeen [48, 49, 50, 51, 52, 53, 54, 55, 56, 57, 97, 98, 99, 100, 101, 102, 103, 104]),
    [searchUrl (js ''Rome Italy'') 1 Pixabay, searchUrl (js ''Rome Italy'') 2 Pixabay])"
proof -
  let ?api = "demoApi (Body (Some []))"
  let ?ns = "[48, 49, 50, 51, 52, 53, 54, 55, 56, 57, 97, 98, 99, 100, 101, 102, 103, 104]"
  have 1: "?api (searchUrl (js ''Rome Italy'') 1 Pixabay) = Body (Some (map demoHit ?ns))"
    by (simp add: demoApi_def searchUrl_def)
  have 2: "map demoHit ?ns \<noteq> []" by simp
  have 3: "\<forall>h\<in>set (map demoHit ?ns). hit_id h \<in> demoSeen ?ns"
    by (simp add: demoSeen_def)
  have 4: "rawHits (?api (searchUrl (js ''Rome Italy'') (1 + 1) Pixabay)) = []"
    by (simp add: demoApi_def searchUrl_def rawHits_def)
  have 5: "\<not> isFailure (?api (searchUrl (js ''Rome Italy'') (1 + 1) Pixabay))"
    by (simp add: demoApi_def searchUrl_def isFailure_def)
  note imp = gather_at_most_five_requests[of ?api "js ''Rome Italy''" Pixabay 1 "demoSeen ?ns" "map demoHit ?ns",
      THEN conjunct2, THEN conjunct2, THEN conjunct2]
  from imp 1 2 3 4 5
  have "gather ?api (js ''Rome Italy'') Pixabay 1 (demoSeen ?ns) =
     ([], Some (demoSeen ?ns),
      [searchUrl (js ''Rome Italy'') 1 Pixabay, searchUrl (js ''Rome Italy'') (1 + 1) Pixabay])"
    by blast
  then show ?thesis by (simp add: numeral_2_eq_2)
qed

text \<open>
  Claim C7. When a request of a gathering fails, the batch handed over is empty, whatever
  had been collected, and the seen set is left as it was. The component stores the empty
  batch and is neither loading nor refreshing afterwards, so that the refresh button
  starts a new gathering on the next page. (A gathering whose effect had been cleaned up
  before it ended stores nothing at all.)
\<close>

theorem gather_failure_gives_empty_batch:
  assumes "query \<noteq> []"
      and "\<exists>r\<in>set (snd (loadUnique api query src aborted st)). isFailure (api r)"
  shows "fst (gather api query src (pageNum st) (seenIdsRef st)) = [] \<and>
         fst (loadUnique api query src aborted st) =
           (if aborted then st\<lparr>loading := True\<rparr>
            else st\<lparr>images := [], loading := False, refreshing := False\<rparr>) \<and>
         (\<not> aborted \<longrightarrow>
            handleRefresh False (fst (loadUnique api query src aborted st)) =
              (fst (loadUnique api query src aborted st))
                \<lparr>refreshing := True, pageNum := pageNum st + 1\<rparr>)"
proof -
  let ?g = "gather api query src (pageNum st) (seenIdsRef st)"
  have sent: "snd (loadUnique api query src aborted st) = snd (snd ?g)"
    using assms(1) by (simp add: loadUnique_def Let_def split: prod.splits)
  obtain n where
    n: "snd (snd ?g) = pagesFrom query src (pageNum st) n"
       "\<forall>k. Suc k < n \<longrightarrow> rawHits (api (searchUrl query (pageNum st + k) src)) \<noteq> []"
       "fst (snd ?g) = None \<longleftrightarrow>
          0 < n \<and> isFailure (api (searchUrl query (pageNum st + (n - 1)) src))"
       "fst (snd ?g) = None \<longrightarrow> fst ?g = []"
    by (rule gather_sent[of api query src "pageNum st" "seenIdsRef st"])
  from assms(2) sent n(1) obtain k where
    k: "k < n" "isFailure (api (searchUrl query (pageNum st + k) src))"
    by (auto simp: in_set_conv_nth length_pagesFrom pagesFrom_nth)
  have "\<not> Suc k < n"
    using n(2) k(2) by (auto simp: isFailure_def rawHits_def split: search_response.splits)
  with k(1) have "k = n - 1" by simp
  with k n(3) have none: "fst (snd ?g) = None" by auto
  with n(4) have empty: "fst ?g = []" by simp
  obtain b s t where g: "?g = (b, s, t)" by (cases ?g) auto
  with none empty have bs: "b = []" "s = None" by simp_all
  have lu: "fst (loadUnique api query src aborted st) =
      (if aborted then st\<lparr>loading := True\<rparr>
       else st\<lparr>images := [], loading := False, refreshing := False\<rparr>)"
    using assms(1) g bs by (simp add: loadUnique_def Let_def)
  show ?thesis using empty lu by (cases aborted) (simp_all add: handleRefresh_def)
qed

text \<open>
  An instance: page 1 brings three new results, page 2 fails, and the component ends up
  with no image.
\<close>

theorem gather_failure_gives_empty_batch_witness:
  "fst (loadUnique (demoApi NotOk) (js ''Rome Italy'') Pixabay False
       (demoState [48, 49, 50, 51, 52, 53, 54, 55, 56, 57, 97, 98, 99, 100, 101])) =
     (demoState [48, 49, 50, 51, 52, 53, 54, 55, 56, 57, 97, 98, 99, 100, 101])
       \<lparr>images := [], loading := False, refreshing := False\<rparr>"
proof -
  let ?st = "demoState [48, 49, 50, 51, 52, 53, 54, 55, 56, 57, 97, 98, 99, 100, 101]"
  have sent: "snd (loadUnique (demoApi NotOk) (js ''Rome Italy'') Pixabay False ?st) =
      [searchUrl (js ''Rome Italy'') 1 Pixabay, searchUrl (js ''Rome Italy'') 2 Pixabay]"
    by code_simp
  have q: "js ''Rome Italy'' \<noteq> []" by (simp add: js_def)
  have f: "\<exists>r\<in>set (snd (loadUnique (demoApi NotOk) (js ''Rome Italy'') Pixabay False ?st)).
      isFailure (demoApi NotOk r)"
    unfolding sent by (simp add: demoApi_def searchUrl_def isFailure_def)
  from gather_failure_gives_empty_batch[OF q f] show ?thesis by simp
qed

section \<open>Properties of the server action\<close>

subsection \<open>Slugs and file names\<close>

lemma set_trim: "set (trim s) \<subseteq> set s"
  by (auto simp: trim_def dest!: set_dropWhileD)

lemma hyphenateRuns_chars:
  "c \<in> set (hyphenateRuns s) \<Longrightarrow> c = 45 \<or> (c \<in> set s \<and> \<not> isSlugSeparator c)"
proof (induction s rule: hyphenateRuns.induct)
  case 1
  then show ?case by simp
next
  case (2 d cs)
  then show ?case by (auto split: if_splits dest: set_dropWhileD)
qed

lemma toSlug_chars: "c \<in> set (toSlug rt input) \<Longrightarrow> isAlnum c \<or> c = 45"
proof -
  assume "c \<in> set (toSlug rt input)"
  then have "c = 45 \<or> (c \<in> set (trim (stripNonSlugChars (normalizeNFKD rt (toLowerCase rt input)))) \<and> \<not> isSlugSeparator c)"
    unfolding toSlug_def by (rule hyphenateRuns_chars)
  then show ?thesis
    by (auto simp: stripNonSlugChars_def isSlugSeparator_def isWordChar_def
             dest!: set_trim[THEN subsetD])
qed

lemma isAscii_lower: "isAscii s \<Longrightarrow> isAscii (map asciiLower s)"
  by (auto simp: isAscii_def list_all_iff asciiLower_def)

lemma lowered_ascii:
  "isAscii s \<Longrightarrow> normalizeNFKD rt (toLowerCase rt s) = map asciiLower s"
  by (simp add: toLowerCase_def normalizeNFKD_def isAscii_lower)

lemma toSlug_provenance:
  assumes "c \<in> set (toSlug rt input)"
  shows "c = 45 \<or> (isAlnum c \<and> c \<in> set (normalizeNFKD rt (toLowerCase rt input)))"
proof -
  from assms have "c = 45 \<or> (c \<in> set (trim (stripNonSlugChars (normalizeNFKD rt (toLowerCase rt input)))) \<and> \<not> isSlugSeparator c)"
    unfolding toSlug_def by (rule hyphenateRuns_chars)
  then show ?thesis
    by (auto simp: stripNonSlugChars_def isSlugSeparator_def isWordChar_def
             dest!: set_trim[THEN subsetD])
qed

lemma toSlug_ascii_chars:
  assumes "isAscii input" and "c \<in> set (toSlug rt input)"
  shows "isLowerAlnum c \<or> c = 45"
proof -
  from toSlug_provenance[OF assms(2)]
  have "c = 45 \<or> (isAlnum c \<and> c \<in> set (map asciiLower input))"
    by (simp add: lowered_ascii[OF assms(1)])
  then show ?thesis
    by (auto simp: isAlnum_def isLowerAlnum_def asciiLower_def split: if_splits)
qed

lemma hyphenateRuns_prefix:
  "\<forall>c\<in>set u. \<not> isSlugSeparator c \<Longrightarrow> hyphenateRuns (u @ s) = u @ hyphenateRuns s"
  by (induction u) simp_all

lemma hyphenateRuns_run:
  assumes "r \<noteq> []" and "\<forall>c\<in>set r. isSlugSeparator c" and "v = [] \<or> \<not> isSlugSeparator (hd v)"
  shows "hyphenateRuns (r @ v) = 45 # hyphenateRuns v"
proof -
  from assms(1) obtain c r' where r: "r = c # r'" by (cases r) auto
  have "dropWhile isSlugSeparator (r' @ v) = dropWhile isSlugSeparator v"
    using assms(2) by (simp add: r)
  also have "\<dots> = v"
    using assms(3) by (cases v) auto
  finally show ?thesis using assms(2) by (simp add: r)
qed

lemma trim_id:
  assumes "s \<noteq> []" and "\<not> isWhiteSpace (hd s)" and "\<not> isWhiteSpace (last s)"
  shows "trim s = s"
proof -
  have "dropWhile isWhiteSpace s = s" using assms(1,2) by (cases s) auto
  moreover have "dropWhile isWhiteSpace (rev s) = rev s"
    using assms(1,3) by (simp add: dropWhile_eq_self_iff hd_rev)
  ultimately show ?thesis by (simp add: trim_def)
qed

lemma stripNonSlugChars_append:
  "stripNonSlugChars (a @ b) = stripNonSlugChars a @ stripNonSlugChars b"
  by (simp add: stripNonSlugChars_def)

lemma slugWord_kept:
  assumes "isSlugWord u"
  shows "keptChars u \<noteq> []"
    and "\<forall>c\<in>set (keptChars u). \<not> isSlugSeparator c"
    and "\<not> isSlugSeparator (hd (keptChars u))"
    and "\<not> isWhiteSpace (last (keptChars u))"
    and "stripNonSlugChars u = keptChars u"
proof -
  from assms have nosep: "\<forall>c\<in>set u. \<not> isSlugSeparator c"
    and ex: "\<exists>c\<in>set u. isAlnum c \<or> c = 45"
    by (auto simp: isSlugWord_def list_all_iff list_ex_iff)
  show ne: "keptChars u \<noteq> []"
    using ex by (auto simp: keptChars_def filter_empty_conv)
  show kept: "\<forall>c\<in>set (keptChars u). \<not> isSlugSeparator c"
    using nosep by (simp add: keptChars_def)
  have "hd (keptChars u) \<in> set (keptChars u)" using ne by (rule hd_in_set)
  with kept show "\<not> isSlugSeparator (hd (keptChars u))" by blast
  have "last (keptChars u) \<in> set (keptChars u)" using ne by (rule last_in_set)
  with kept show "\<not> isWhiteSpace (last (keptChars u))"
    by (auto simp: isSlugSeparator_def)
  show "stripNonSlugChars u = keptChars u"
    unfolding stripNonSlugChars_def keptChars_def
    using nosep by (intro filter_cong) (auto simp: isSlugSeparator_def isWordChar_def)
qed

lemma separatorRun_kept:
  assumes "isSeparatorRun r"
  shows "r \<noteq> []"
    and "\<forall>c\<in>set r. isSlugSeparator c"
    and "stripNonSlugChars r = r"
proof -
  from assms show ne: "r \<noteq> []" and all: "\<forall>c\<in>set r. isSlugSeparator c"
    by (auto simp: isSeparatorRun_def list_all_iff)
  show "stripNonSlugChars r = r"
    unfolding stripNonSlugChars_def
    using all by (auto simp: filter_id_conv isSlugSeparator_def isWordChar_def)
qed

lemma words_strip:
  assumes "list_all (\<lambda>(u, r). isSlugWord u \<and> isSeparatorRun r) wrs" and "isSlugWord wl"
  shows "stripNonSlugChars (concat (map (\<lambda>(u, r). u @ r) wrs) @ wl) =
         concat (map (\<lambda>(u, r). keptChars u @ r) wrs) @ keptChars wl"
  using assms(1)
proof (induction wrs)
  case Nil
  show ?case by (simp add: slugWord_kept(5)[OF assms(2)])
next
  case (Cons p rest)
  obtain u r where p: "p = (u, r)" by (cases p)
  from Cons.prems have u: "isSlugWord u" and r: "isSeparatorRun r"
    and rest: "list_all (\<lambda>(u, r). isSlugWord u \<and> isSeparatorRun r) rest"
    by (simp_all add: p)
  have "stripNonSlugChars (u @ r @ concat (map (\<lambda>(u, r). u @ r) rest) @ wl) =
        keptChars u @ r @ stripNonSlugChars (concat (map (\<lambda>(u, r). u @ r) rest) @ wl)"
    by (simp only: stripNonSlugChars_append slugWord_kept(5)[OF u] separatorRun_kept(3)[OF r])
  then show ?case by (simp add: p Cons.IH[OF rest])
qed

lemma words_hd:
  assumes "list_all (\<lambda>(u, r). isSlugWord u \<and> isSeparatorRun r) wrs" and "isSlugWord wl"
  shows "concat (map (\<lambda>(u, r). keptChars u @ r) wrs) @ keptChars wl \<noteq> [] \<and>
         \<not> isSlugSeparator (hd (concat (map (\<lambda>(u, r). keptChars u @ r) wrs) @ keptChars wl))"
proof (cases wrs)
  case Nil
  with slugWord_kept(1,3)[OF assms(2)] show ?thesis by simp
next
  case (Cons p rest)
  obtain u r where p: "p = (u, r)" by (cases p)
  from assms(1) have "isSlugWord u" by (simp add: Cons p)
  from slugWord_kept(1,3)[OF this] show ?thesis by (simp add: Cons p)
qed

lemma words_last:
  assumes "isSlugWord wl"
  shows "\<not> isWhiteSpace (last (concat (map (\<lambda>(u, r). keptChars u @ r) wrs) @ keptChars wl))"
  using slugWord_kept(1,4)[OF assms] by simp

lemma words_hyphenate:
  assumes "list_all (\<lambda>(u, r). isSlugWord u \<and> isSeparatorRun r) wrs" and "isSlugWord wl"
  shows "hyphenateRuns (concat (map (\<lambda>(u, r). keptChars u @ r) wrs) @ keptChars wl) =
         concat (map (\<lambda>(u, r). keptChars u @ [45]) wrs) @ keptChars wl"
  using assms(1)
proof (induction wrs)
  case Nil
  from hyphenateRuns_prefix[OF slugWord_kept(2)[OF assms(2)], of "[]"]
  show ?case by simp
next
  case (Cons p rest)
  obtain u r where p: "p = (u, r)" by (cases p)
  from Cons.prems have u: "isSlugWord u" and r: "isSeparatorRun r"
    and rest: "list_all (\<lambda>(u, r). isSlugWord u \<and> isSeparatorRun r) rest"
    by (simp_all add: p)
  let ?tail = "concat (map (\<lambda>(u, r). keptChars u @ r) rest) @ keptChars wl"
  have hd: "?tail = [] \<or> \<not> isSlugSeparator (hd ?tail)"
    using words_hd[OF rest assms(2)] by blast
  have "hyphenateRuns (keptChars u @ r @ ?tail) =
        keptChars u @ hyphenateRuns (r @ ?tail)"
    by (rule hyphenateRuns_prefix[OF slugWord_kept(2)[OF u]])
  also have "hyphenateRuns (r @ ?tail) = 45 # hyphenateRuns ?tail"
    by (rule hyphenateRuns_run[OF separatorRun_kept(1,2)[OF r] hd])
  also have "hyphenateRuns ?tail =
      concat (map (\<lambda>(u, r). keptChars u @ [45]) rest) @ keptChars wl"
    by (rule Cons.IH[OF rest])
  finally show ?case by (simp add: p)
qed

lemma toSlug_words:
  assumes "list_all (\<lambda>(u, r). isSlugWord u \<and> isSeparatorRun r) wrs" and "isSlugWord wl"
      and "normalizeNFKD rt (toLowerCase rt input) = concat (map (\<lambda>(u, r). u @ r) wrs) @ wl"
  shows "toSlug rt input = concat (map (\<lambda>(u, r). keptChars u @ [45]) wrs) @ keptChars wl"
proof -
  let ?kept = "concat (map (\<lambda>(u, r). keptChars u @ r) wrs) @ keptChars wl"
  have hd: "?kept \<noteq> []" "\<not> isWhiteSpace (hd ?kept)"
    using words_hd[OF assms(1,2)] by (auto simp: isSlugSeparator_def)
  have "trim ?kept = ?kept"
    by (rule trim_id[OF hd words_last[OF assms(2)]])
  then show ?thesis
    unfolding toSlug_def assms(3) words_strip[OF assms(1,2)]
    by (simp only: words_hyphenate[OF assms(1,2)])
qed

lemma sanitizeId_chars: "c \<in> set (sanitizeId i) \<Longrightarrow> isAlnum c \<or> c = 95 \<or> c = 45"
  by (simp add: sanitizeId_def)

lemma sanitizeId_clean:
  "list_all (\<lambda>c. isAlnum c \<or> c = 95 \<or> c = 45) i \<Longrightarrow> sanitizeId i = i"
  by (simp add: sanitizeId_def list_all_iff filter_id_conv)

lemma action_downloads:
  "downloads (snd (downloadImageAndUpdateCsv net rt prevState formData w)) =
     (case net (trim (formString formData (js ''imageUrl''))) of
        FetchThrows \<Rightarrow> downloads w
      | Response ok status statusText body \<Rightarrow>
          if accepted formData \<and> ok
          then (downloads w)(pickedFilename rt formData \<mapsto> body)
          else downloads w)"
  by (auto simp: downloadImageAndUpdateCsv_def downloadImageToPublic_def
        updateCsvWithFilename_def ensureDir_def accepted_def pickedFilename_def Let_def
        split: fetch_result.splits option.splits sum.splits)

lemma action_filename:
  "state_filename (fst (downloadImageAndUpdateCsv net rt prevState formData w)) =
     (if state_status (fst (downloadImageAndUpdateCsv net rt prevState formData w)) = Success
      then Some (pickedFilename rt formData) else None)"
  by (auto simp: downloadImageAndUpdateCsv_def downloadImageToPublic_def
        updateCsvWithFilename_def ensureDir_def pickedFilename_def Let_def
        split: fetch_result.splits option.splits sum.splits)

lemma action_success_file:
  assumes "state_status (fst (downloadImageAndUpdateCsv net rt prevState formData w)) = Success"
  shows "\<exists>status statusText body.
           net (trim (formString formData (js ''imageUrl''))) = Response True status statusText body \<and>
           downloads (snd (downloadImageAndUpdateCsv net rt prevState formData w))
             (pickedFilename rt formData) = Some body"
  using assms
  by (auto simp: downloadImageAndUpdateCsv_def downloadImageToPublic_def
        updateCsvWithFilename_def ensureDir_def pickedFilename_def Let_def
        split: fetch_result.splits option.splits sum.splits if_splits)

text \<open>
  Claim C9. \<open>toSlug\<close> is a function of its input (and of the tables of the runtime): it
  reads no state, so the same string gives the same slug. The slug of a city, a hyphen
  and the slug of a country hold nothing but ASCII letters, digits and hyphens, hence no
  white space and no other punctuation. Every letter and digit of a slug occurs in the
  lower-cased and decomposed input; for an ASCII input this is the input with its
  capitals made small, and the slug has no capital letter. When the lower-cased and
  decomposed input consists of words that are separated by runs of white space and
  underscores, the slug is the letters, digits and hyphens of each word, in their order,
  with one hyphen for each run: accents and other characters are removed, and a run of
  any length gives a single hyphen. The image id is sanitized to letters, digits,
  underscores and hyphens, and an id of such characters is kept as it is. The action writes a file exactly when the request passes the
  validation and the download is answered with ok, whatever happens to the CSV file
  afterwards; the name of that file is the slug of the city, a hyphen, the slug of the
  country, a hyphen, the sanitized image id, a dot and the extension taken from the URL.
  The file name that the action reports is this name when it succeeds, and then the
  file is stored under it; on every other outcome it reports none.
\<close>

theorem slug_alphabet_and_filename_shape:
  "(\<forall>c\<in>set (toSlug rt city @ [45] @ toSlug rt country). isAlnum c \<or> c = 45) \<and>
   (\<forall>c\<in>set (toSlug rt input).
      c = 45 \<or> (isAlnum c \<and> c \<in> set (normalizeNFKD rt (toLowerCase rt input)))) \<and>
   (isAscii input \<longrightarrow>
      normalizeNFKD rt (toLowerCase rt input) = map asciiLower input \<and>
      (\<forall>c\<in>set (toSlug rt input). isLowerAlnum c \<or> c = 45)) \<and>
   (list_all (\<lambda>(u, r). isSlugWord u \<and> isSeparatorRun r) wrs \<and> isSlugWord wl \<and>
    normalizeNFKD rt (toLowerCase rt input) = concat (map (\<lambda>(u, r). u @ r) wrs) @ wl \<longrightarrow>
      toSlug rt input = concat (map (\<lambda>(u, r). keptChars u @ [45]) wrs) @ keptChars wl) \<and>
   (\<forall>c\<in>set (sanitizeId imageIdRaw). isAlnum c \<or> c = 95 \<or> c = 45) \<and>
   (list_all (\<lambda>c. isAlnum c \<or> c = 95 \<or> c = 45) imageIdRaw \<longrightarrow>
      sanitizeId imageIdRaw = imageIdRaw) \<and>
   downloads (snd (downloadImageAndUpdateCsv net rt prevState formData w)) =
     (case net (trim (formString formData (js ''imageUrl''))) of
        FetchThrows \<Rightarrow> downloads w
      | Response ok status statusText body \<Rightarrow>
          if accepted formData \<and> ok
          then (downloads w)(pickedFilename rt formData \<mapsto> body)
          else downloads w) \<and>
   state_filename (fst (downloadImageAndUpdateCsv net rt prevState formData w)) =
     (if state_status (fst (downloadImageAndUpdateCsv net rt prevState formData w)) = Success
      then Some (pickedFilename rt formData) else None) \<and>
   (state_status (fst (downloadImageAndUpdateCsv net rt prevState formData w)) = Success \<longrightarrow>
      (\<exists>status statusText body.
         net (trim (formString formData (js ''imageUrl''))) = Response True status statusText body \<and>
         downloads (snd (downloadImageAndUpdateCsv net rt prevState formData w))
           (pickedFilename rt formData) = Some body))"
proof (intro conjI)
  show "\<forall>c\<in>set (toSlug rt city @ [45] @ toSlug rt country). isAlnum c \<or> c = 45"
    using toSlug_chars by auto
  show "\<forall>c\<in>set (toSlug rt input).
      c = 45 \<or> (isAlnum c \<and> c \<in> set (normalizeNFKD rt (toLowerCase rt input)))"
    using toSlug_provenance by blast
  show "isAscii input \<longrightarrow>
      normalizeNFKD rt (toLowerCase rt input) = map asciiLower input \<and>
      (\<forall>c\<in>set (toSlug rt input). isLowerAlnum c \<or> c = 45)"
    using toSlug_ascii_chars lowered_ascii by blast
  show "list_all (\<lambda>(u, r). isSlugWord u \<and> isSeparatorRun r) wrs \<and> isSlugWord wl \<and>
    normalizeNFKD rt (toLowerCase rt input) = concat (map (\<lambda>(u, r). u @ r) wrs) @ wl \<longrightarrow>
      toSlug rt input = concat (map (\<lambda>(u, r). keptChars u @ [45]) wrs) @ keptChars wl"
    using toSlug_words by blast
  show "\<forall>c\<in>set (sanitizeId imageIdRaw). isAlnum c \<or> c = 95 \<or> c = 45"
    using sanitizeId_chars by blast
  show "list_all (\<lambda>c. isAlnum c \<or> c = 95 \<or> c = 45) imageIdRaw \<longrightarrow>
      sanitizeId imageIdRaw = imageIdRaw"
    using sanitizeId_clean by blast
  show "downloads (snd (downloadImageAndUpdateCsv net rt prevState formData w)) =
     (case net (trim (formString formData (js ''imageUrl''))) of
        FetchThrows \<Rightarrow> downloads w
      | Response ok status statusText body \<Rightarrow>
          if accepted formData \<and> ok
          then (downloads w)(pickedFilename rt formData \<mapsto> body)
          else downloads w)"
    by (rule action_downloads)
  show "state_filename (fst (downloadImageAndUpdateCsv net rt prevState formData w)) =
     (if state_status (fst (downloadImageAndUpdateCsv net rt prevState formData w)) = Success
      then Some (pickedFilename rt formData) else None)"
    by (rule action_filename)
  show "state_status (fst (downloadImageAndUpdateCsv net rt prevState formData w)) = Success \<longrightarrow>
      (\<exists>status statusText body.
         net (trim (formString formData (js ''imageUrl''))) = Response True status statusText body \<and>
         downloads (snd (downloadImageAndUpdateCsv net rt prevState formData w))
           (pickedFilename rt formData) = Some body)"
    using action_success_file by blast
qed

text \<open>
  Instances. With an accent: the a with tilde is decomposed and its tilde removed, the
  space becomes a hyphen, and the \<open>#\<close> of the image id is dropped, while an id of
  letters, digits, an underscore and a hyphen is kept; the file is stored under the
  reported name. With runs and a full stop: two spaces, and an underscore and
  a space, give one hyphen each, the full stop is removed, and the letters of the slug
  are those of the lower-cased input. With a CSV file that cannot be read: the action
  reports an error and no file name, and the file it has written has the same name.
\<close>

theorem slug_alphabet_and_filename_shape_witness:
  "toSlug demoRuntime [83, 227, 111, 32, 80, 97, 117, 108, 111] = js ''sao-paulo'' \<and>
   toSlug demoRuntime [83, 227, 111, 32, 80, 97, 117, 108, 111] @ [45] @
     toSlug demoRuntime (js ''Brazil'') = js ''sao-paulo-brazil'' \<and>
   list_all (\<lambda>c. isAlnum c \<or> c = 45) (js ''sao-paulo-brazil'') \<and>
   toSlug demoRuntime (js ''St.  Mary_ Mead'') = js ''st-mary-mead'' \<and>
   list_all (\<lambda>c. isLowerAlnum c \<or> c = 45) (js ''st-mary-mead'') \<and>
   list_all (\<lambda>c. c = 45 \<or> (isAlnum c \<and> c \<in> set (js ''st.  mary_ mead'')))
     (js ''st-mary-mead'') \<and>
   sanitizeId (js ''ab#12'') = js ''ab12'' \<and>
   list_all (\<lambda>c. isAlnum c \<or> c = 95 \<or> c = 45) (js ''ab12'') \<and>
   sanitizeId (js ''9_a-B'') = js ''9_a-B'' \<and>
   state_status (fst (downloadImageAndUpdateCsv demoNet demoRuntime idleState
      (demoForm [83, 227, 111, 32, 80, 97, 117, 108, 111] (js ''Brazil'') (js ''ab#12'')
         (js ''https://example.com/img/Photo.JPG''))
      (demoWorld (js ''city,country,type,filename'')))) = Success \<and>
   state_filename (fst (downloadImageAndUpdateCsv demoNet demoRuntime idleState
      (demoForm [83, 227, 111, 32, 80, 97, 117, 108, 111] (js ''Brazil'') (js ''ab#12'')
         (js ''https://example.com/img/Photo.JPG''))
      (demoWorld (js ''city,country,type,filename'')))) = Some (js ''sao-paulo-brazil-ab12.jpg'') \<and>
   downloads (snd (downloadImageAndUpdateCsv demoNet demoRuntime idleState
      (demoForm [83, 227, 111, 32, 80, 97, 117, 108, 111] (js ''Brazil'') (js ''ab#12'')
         (js ''https://example.com/img/Photo.JPG''))
      (demoWorld (js ''city,country,type,filename'')))) (js ''sao-paulo-brazil-ab12.jpg'') =
     Some [255, 216, 255] \<and>
   state_status (fst (downloadImageAndUpdateCsv demoNet demoRuntime idleState
      (demoForm [83, 227, 111, 32, 80, 97, 117, 108, 111] (js ''Brazil'') (js ''ab#12'')
         (js ''https://example.com/img/Photo.JPG''))
      ((demoWorld [])\<lparr>csvFile := None\<rparr>))) = Error \<and>
   state_filename (fst (downloadImageAndUpdateCsv demoNet demoRuntime idleState
      (demoForm [83, 227, 111, 32, 80, 97, 117, 108, 111] (js ''Brazil'') (js ''ab#12'')
         (js ''https://example.com/img/Photo.JPG''))
      ((demoWorld [])\<lparr>csvFile := None\<rparr>))) = None \<and>
   downloads (snd (downloadImageAndUpdateCsv demoNet demoRuntime idleState
      (demoForm [83, 227, 111, 32, 80, 97, 117, 108, 111] (js ''Brazil'') (js ''ab#12'')
         (js ''https://example.com/img/Photo.JPG''))
      ((demoWorld [])\<lparr>csvFile := None\<rparr>))) (js ''sao-paulo-brazil-ab12.jpg'') =
     Some [255, 216, 255]"
proof -
  let ?city = "[83, 227, 111, 32, 80, 97, 117, 108, 111]"
  let ?form = "demoForm ?city (js ''Brazil'') (js ''ab#12'') (js ''https://example.com/img/Photo.JPG'')"
  let ?readable = "demoWorld (js ''city,country,type,filename'')"
  let ?unreadable = "(demoWorld [])\<lparr>csvFile := None\<rparr>"
  let ?accent = "[([115, 97, 771, 111], [32])]"
  let ?runs = "[(js ''st.'', js ''  ''), (js ''mary'', js ''_ '')]"
  note sao = slug_alphabet_and_filename_shape[where rt = demoRuntime and city = ?city
      and country = "js ''Brazil''" and input = ?city and wrs = ?accent
      and wl = "js ''paulo''" and imageIdRaw = "js ''ab#12''" and net = demoNet
      and prevState = idleState and formData = ?form and w = ?readable]
  note mary = slug_alphabet_and_filename_shape[where rt = demoRuntime and city = ?city
      and country = "js ''Brazil''" and input = "js ''St.  Mary_ Mead''" and wrs = ?runs
      and wl = "js ''mead''" and imageIdRaw = "js ''9_a-B''" and net = demoNet
      and prevState = idleState and formData = ?form and w = ?unreadable]
  have slug: "toSlug demoRuntime ?city @ [45] @ toSlug demoRuntime (js ''Brazil'') = js ''sao-paulo-brazil''"
    by code_simp
  have accentOk: "list_all (\<lambda>(u, r). isSlugWord u \<and> isSeparatorRun r) ?accent \<and> isSlugWord (js ''paulo'')"
    by code_simp
  have accentSrc: "normalizeNFKD demoRuntime (toLowerCase demoRuntime ?city) =
      concat (map (\<lambda>(u, r). u @ r) ?accent) @ js ''paulo''"
    by code_simp
  have accentRes: "concat (map (\<lambda>(u, r). keptChars u @ [45]) ?accent) @ keptChars (js ''paulo'') =
      js ''sao-paulo''"
    by code_simp
  have ascii: "isAscii (js ''St.  Mary_ Mead'')"
    by code_simp
  have low: "map asciiLower (js ''St.  Mary_ Mead'') = js ''st.  mary_ mead''"
    by code_simp
  have runsOk: "list_all (\<lambda>(u, r). isSlugWord u \<and> isSeparatorRun r) ?runs \<and> isSlugWord (js ''mead'')"
    by code_simp
  have runsSrc: "concat (map (\<lambda>(u, r). u @ r) ?runs) @ js ''mead'' = js ''st.  mary_ mead''"
    by code_simp
  have runsRes: "concat (map (\<lambda>(u, r). keptChars u @ [45]) ?runs) @ keptChars (js ''mead'') =
      js ''st-mary-mead''"
    by code_simp
  have san: "sanitizeId (js ''ab#12'') = js ''ab12''"
    by code_simp
  have clean: "list_all (\<lambda>c. isAlnum c \<or> c = 95 \<or> c = 45) (js ''9_a-B'')"
    by code_simp
  have ok: "state_status (fst (downloadImageAndUpdateCsv demoNet demoRuntime idleState ?form ?readable)) = Success"
    by code_simp
  have err: "state_status (fst (downloadImageAndUpdateCsv demoNet demoRuntime idleState ?form ?unreadable)) = Error"
    by code_simp
  have acc: "accepted ?form"
    by code_simp
  have name: "pickedFilename demoRuntime ?form = js ''sao-paulo-brazil-ab12.jpg''"
    by code_simp
  have net: "demoNet (trim (formString ?form (js ''imageUrl''))) = Response True 200 (js ''OK'') [255, 216, 255]"
    by (simp add: demoNet_def)
  from sao accentOk accentSrc have "toSlug demoRuntime ?city = js ''sao-paulo''"
    unfolding accentRes by blast
  moreover from sao have "list_all (\<lambda>c. isAlnum c \<or> c = 45) (js ''sao-paulo-brazil'')"
    unfolding slug list_all_iff by blast
  moreover from mary ascii have lowered: "normalizeNFKD demoRuntime (toLowerCase demoRuntime (js ''St.  Mary_ Mead'')) =
      js ''st.  mary_ mead''"
    unfolding low by blast
  moreover from mary runsOk lowered runsSrc have st: "toSlug demoRuntime (js ''St.  Mary_ Mead'') = js ''st-mary-mead''"
    unfolding runsRes by simp
  moreover from mary ascii have "list_all (\<lambda>c. isLowerAlnum c \<or> c = 45) (js ''st-mary-mead'')"
    unfolding st list_all_iff by blast
  moreover from mary have "list_all (\<lambda>c. c = 45 \<or> (isAlnum c \<and> c \<in> set (js ''st.  mary_ mead'')))
      (js ''st-mary-mead'')"
    unfolding st lowered list_all_iff by blast
  moreover from sao have "list_all (\<lambda>c. isAlnum c \<or> c = 95 \<or> c = 45) (js ''ab12'')"
    unfolding san list_all_iff by blast
  moreover from mary clean have "sanitizeId (js ''9_a-B'') = js ''9_a-B''"
    by blast
  moreover from sao ok have "state_filename (fst (downloadImageAndUpdateCsv demoNet demoRuntime idleState ?form ?readable)) =
      Some (js ''sao-paulo-brazil-ab12.jpg'')"
    unfolding name by simp
  moreover from sao ok have "downloads (snd (downloadImageAndUpdateCsv demoNet demoRuntime idleState ?form ?readable))
      (js ''sao-paulo-brazil-ab12.jpg'') = Some [255, 216, 255]"
    unfolding name net by auto
  moreover from mary err have "state_filename (fst (downloadImageAndUpdateCsv demoNet demoRuntime idleState ?form ?unreadable)) =
      None"
    by simp
  moreover from mary acc have "downloads (snd (downloadImageAndUpdateCsv demoNet demoRuntime idleState ?form ?unreadable))
      (js ''sao-paulo-brazil-ab12.jpg'') = Some [255, 216, 255]"
    unfolding name net by simp
  ultimately show ?thesis using slug san ok err by blast
qed

subsection \<open>Validation\<close>

text \<open>
  Claim C8. When the city, the country, the image id or the image URL of a request is
  empty after trimming, the action answers with the error \<open>Missing required fields\<close> and
  leaves everything as it was: no request has been sent, no file written, and the CSV
  file is unchanged.
\<close>

theorem missing_fields_rejected_before_io:
  assumes "trim (formString formData (js ''city'')) = [] \<or>
           trim (formString formData (js ''country'')) = [] \<or>
           trim (formString formData (js ''imageId'')) = [] \<or>
           trim (formString formData (js ''imageUrl'')) = []"
  shows "downloadImageAndUpdateCsv net rt prevState formData w =
           (\<lparr>state_status = Error, state_message = Some MissingRequiredFields,
             state_filename = None\<rparr>, w)"
  using assms by (auto simp: downloadImageAndUpdateCsv_def Let_def)

text \<open>An instance: the country is two spaces.\<close>

theorem missing_fields_rejected_before_io_witness:
  "downloadImageAndUpdateCsv demoNet demoRuntime idleState
      (demoForm (js ''Rome'') (js ''  '') (js ''9'') (js ''https://example.com/photos/rome.jpg''))
      (demoWorld (js ''city,country\<newline>Rome,Italy'')) =
   (\<lparr>state_status = Error, state_message = Some MissingRequiredFields, state_filename = None\<rparr>,
    demoWorld (js ''city,country\<newline>Rome,Italy''))"
proof -
  have "trim (formString
      (demoForm (js ''Rome'') (js ''  '') (js ''9'') (js ''https://example.com/photos/rome.jpg''))
      (js ''country'')) = []"
    by code_simp
  then show ?thesis by (intro missing_fields_rejected_before_io) simp
qed

subsection \<open>The extension of a URL whose path ends with a dot\<close>

text \<open>
  Claim C10 says that the extension is never empty. It is empty when the last segment of
  the path ends with a dot: \<^verbatim>\<open>'rome.'.split('.')\<close> has two parts, the last one empty, and
  the default \<open>jpg\<close> is taken only when there is one part. The file is then written under
  a name that ends with the dot.
\<close>

theorem extension_empty_after_trailing_dot:
  "extensionOfPathname rt (js ''/photos/rome.'') = [] \<and>
   getFileExtensionFromUrl demoRuntime (js ''https://example.com/photos/rome.'') = [] \<and>
   fst (downloadImageToPublic demoNet demoRuntime (js ''https://example.com/photos/rome.'')
          (js ''rome-italy-9'') (demoWorld (js ''city,country\<newline>Rome,Italy''))) =
     Inr (js ''rome-italy-9.'')"
  by code_simp

section \<open>Properties of the CSV update\<close>

subsection \<open>Splitting and joining\<close>

lemma splitOn_not_Nil: "splitOn sep s \<noteq> []"
  by (induction s) (auto split: list.splits)

lemma joinWith_Cons: "ys \<noteq> [] \<Longrightarrow> joinWith sep (x # ys) = x @ sep # joinWith sep ys"
  by (cases ys) auto

lemma joinWith_splitOn: "joinWith sep (splitOn sep s) = s"
proof (induction s)
  case Nil
  then show ?case by simp
next
  case (Cons c cs)
  obtain p ps where sp: "splitOn sep cs = p # ps"
    using splitOn_not_Nil[of sep cs] by (cases "splitOn sep cs") auto
  with Cons have cs: "joinWith sep (p # ps) = cs" by simp
  show ?case
  proof (cases "c = sep")
    case True
    with sp cs show ?thesis by (simp add: joinWith_Cons)
  next
    case False
    with sp cs show ?thesis by (cases ps) auto
  qed
qed






lemma splitLines_not_Nil: "splitLines s \<noteq> []"
  by (cases s) (simp_all split: list.split)





subsection \<open>The loop finds the row of the policy\<close>

lemma parseCsvLine_not_Nil: "parseCsvLine raw \<noteq> []"
  by (simp add: parseCsvLine_def splitOn_not_Nil)

lemma length_rowFields: "headerLength \<le> length (rowFields headerLength raw)"
  by (simp add: rowFields_def padFields_def)

lemma forLoop_find:
  assumes "2 \<le> headerLength"
  shows "forLoop headerLength filenameIndex city country filename i lines False updatedIndex =
         loopResult headerLength filenameIndex city country filename i lines updatedIndex"
  using assms
proof (induction headerLength filenameIndex city country filename i lines "False" updatedIndex
       rule: forLoop.induct)
  case (1 headerLength filenameIndex city country filename i lines updatedIndex)
  let ?flds = "padFields headerLength (parseCsvLine (lines ! i))"
  show ?case
  proof (cases "i < length lines")
    case False
    then show ?thesis
      by (subst forLoop.simps) (simp add: loopResult_def split: option.split)
  next
    case inside: True
    then have upt: "[i..<length lines] = i # [Suc i..<length lines]"
      by (simp add: upt_conv_Cons)
    have two: "2 \<le> length ?flds"
      using "1.prems" by (simp add: padFields_def)
    define f0 where "f0 = ?flds ! 0"
    define f1 where "f1 = ?flds ! 1"
    have g: "jsGet ?flds 0 = Some f0" "jsGet ?flds 1 = Some f1"
      using two by (auto simp: jsGet_def f0_def f1_def)
    note g' = g[unfolded One_nat_def]
    show ?thesis
    proof (cases "isBlank (Some (lines ! i))")
      case True
      then have nm: "\<not> keyMatches headerLength city country (lines ! i)"
        by (simp add: keyMatches_def)
      have step: "forLoop headerLength filenameIndex city country filename i lines False updatedIndex =
            forLoop headerLength filenameIndex city country filename (Suc i) lines False updatedIndex"
        by (subst forLoop.simps) (simp add: inside True)
      have rhs: "loopResult headerLength filenameIndex city country filename i lines updatedIndex =
            loopResult headerLength filenameIndex city country filename (Suc i) lines updatedIndex"
        using nm by (simp add: loopResult_def upt split: option.split)
      show ?thesis
        unfolding step rhs by (rule "1.hyps"(1)[OF inside refl True "1.prems"])
    next
      case nonblank: False
      show ?thesis
      proof (cases "trim f0 = city \<and> trim f1 = country")
        case False
        then have nm: "\<not> keyMatches headerLength city country (lines ! i)"
          using g by (auto simp: keyMatches_def rowFields_def)
        have step: "forLoop headerLength filenameIndex city country filename i lines False updatedIndex =
            forLoop headerLength filenameIndex city country filename (Suc i) lines False updatedIndex"
          using False by (subst forLoop.simps) (auto simp: inside nonblank g' Let_def)
        have rhs: "loopResult headerLength filenameIndex city country filename i lines updatedIndex =
            loopResult headerLength filenameIndex city country filename (Suc i) lines updatedIndex"
          using nm by (simp add: loopResult_def upt split: option.split)
        show ?thesis
          unfolding step rhs
          by (rule "1.hyps"(3)[OF inside refl nonblank refl refl g refl refl False "1.prems"])
      next
        case match: True
        then have m: "keyMatches headerLength city country (lines ! i)"
          using g nonblank by (auto simp: keyMatches_def rowFields_def)
        show ?thesis
        proof (cases "isBlank (jsGet ?flds filenameIndex)")
          case True
          then have e: "filenameEmpty headerLength filenameIndex (lines ! i)"
            by (simp add: filenameEmpty_def rowFields_def)
          have "forLoop headerLength filenameIndex city country filename i lines False updatedIndex =
            Inr (lines[i := withFilename headerLength filenameIndex filename (lines ! i)], True, Some i)"
            using match True
            by (subst forLoop.simps)
               (auto simp: inside nonblank g' Let_def withFilename_def rowFields_def)
          with m e show ?thesis by (simp add: loopResult_def upt)
        next
          case False
          then have ne: "\<not> filenameEmpty headerLength filenameIndex (lines ! i)"
            by (simp add: filenameEmpty_def rowFields_def)
          let ?u = "if updatedIndex = None then Some i else updatedIndex"
          have step: "forLoop headerLength filenameIndex city country filename i lines False updatedIndex =
            forLoop headerLength filenameIndex city country filename (Suc i) lines False ?u"
            using match False by (subst forLoop.simps) (auto simp: inside nonblank g' Let_def)
          have rhs: "loopResult headerLength filenameIndex city country filename i lines updatedIndex =
            loopResult headerLength filenameIndex city country filename (Suc i) lines ?u"
            using m ne by (cases updatedIndex) (simp_all add: loopResult_def upt split: option.split)
          from False have nf: "\<not> (\<not> False \<and> isBlank (jsGet ?flds filenameIndex))" by simp
          show ?thesis
            unfolding step rhs
            by (rule "1.hyps"(2)[OF inside refl nonblank refl refl g refl refl match nf "1.prems"])
        qed
      qed
    qed
  qed
qed

lemma indexOf_Some:
  "indexOf xs x = Some k \<Longrightarrow> k < length xs \<and> xs ! k = x"
proof (induction xs arbitrary: k)
  case Nil
  then show ?case by simp
next
  case (Cons y ys)
  then show ?case by (cases k) (auto split: if_splits)
qed



lemma headerHandling_index:
  "headerHandling rt line0 = (header, filenameIndex, headerChanged)
     \<Longrightarrow> filenameIndex < length header"
  by (auto simp: headerHandling_def Let_def split: option.splits dest: indexOf_Some)

lemma newRow_code:
  assumes "filenameIndex < headerLength"
  shows "jsSet (padFields headerLength [city, country, []]) filenameIndex filename =
         newRowFields headerLength filenameIndex city country filename"
proof -
  have "max headerLength 3 = Suc (Suc (Suc (headerLength - 3)))"
    by arith
  then have r: "replicate (max headerLength 3) ([] :: jsstring) =
           [] # [] # [] # replicate (headerLength - 3) []"
    by simp
  have pad: "padFields headerLength [city, country, []] =
             city # country # [] # replicate (headerLength - 3) []"
    by (simp add: padFields_def)
  have len: "filenameIndex < length (padFields headerLength [city, country, []])"
    using assms by (simp add: pad)
  show ?thesis
    using len by (simp add: jsSet_def newRowFields_def r pad)
qed

lemma updateLines_policy:
  assumes "lines \<noteq> []"
      and "headerHandling rt (lines ! 0) = (header, filenameIndex, headerChanged)"
      and "2 \<le> length header"
  shows "updateLines rt city country filename lines =
           Inr ((applyPolicy (length header) filenameIndex city country filename lines)
                  [0 := stringifyCsvLine header])"
proof -
  have fi: "filenameIndex < length header"
    using assms(2) by (rule headerHandling_index)
  note loop = forLoop_find[OF assms(3), of filenameIndex city country filename "Suc 0" lines None]
  show ?thesis
    using assms(1)
    by (simp add: updateLines_def assms(2) loop loopResult_def applyPolicy_def rowStatus_def
          withFilename_def rowFields_def newRow_code[OF fi] Let_def
          split: option.split)
qed

lemma updateCsvText_policy:
  assumes "headerHandling rt (splitLines original ! 0) = (header, filenameIndex, headerChanged)"
      and "2 \<le> length header"
  shows "updateCsvText rt city country filename original =
           Inr (joinWith 10
                  ((applyPolicy (length header) filenameIndex city country filename
                      (splitLines original))[0 := stringifyCsvLine header]))"
  by (simp add: updateCsvText_def updateLines_policy[OF splitLines_not_Nil assms])

lemma newRowFields_shape:
  assumes "2 \<le> filenameIndex" "filenameIndex < headerLength"
  shows "newRowFields headerLength filenameIndex city country filename =
           [city, country] @ replicate (filenameIndex - 2) [] @ [filename] @
           replicate (headerLength - Suc filenameIndex) []"
proof (rule nth_equalityI)
  show "length (newRowFields headerLength filenameIndex city country filename) =
        length ([city, country] @ replicate (filenameIndex - 2) [] @ [filename] @
                replicate (headerLength - Suc filenameIndex) [])"
    using assms by (simp add: newRowFields_def)
next
  fix i
  assume "i < length (newRowFields headerLength filenameIndex city country filename)"
  then have i: "i < headerLength" using assms by (simp add: newRowFields_def)
  consider "i = 0" | "i = 1" | "2 \<le> i" "i < filenameIndex" | "i = filenameIndex"
    | "filenameIndex < i"
    by linarith
  then show "newRowFields headerLength filenameIndex city country filename ! i =
        ([city, country] @ replicate (filenameIndex - 2) [] @ [filename] @
         replicate (headerLength - Suc filenameIndex) []) ! i"
  proof cases
    case 1
    with assms show ?thesis by (simp add: newRowFields_def)
  next
    case 2
    with assms show ?thesis by (simp add: newRowFields_def)
  next
    case 3
    with assms i show ?thesis
      by (auto simp: newRowFields_def nth_append nth_Cons' numeral_2_eq_2)
  next
    case 4
    with assms i show ?thesis
      by (auto simp: newRowFields_def nth_append nth_Cons' numeral_2_eq_2)
  next
    case 5
    with assms i show ?thesis
      by (auto simp: newRowFields_def nth_append nth_Cons' numeral_2_eq_2)
  qed
qed

lemma withFilename_fields:
  "filenameIndex < headerLength \<Longrightarrow>
   withFilename headerLength filenameIndex filename raw =
     stringifyCsvLine ((rowFields headerLength raw)[filenameIndex := filename])"
  using length_rowFields[of headerLength raw] by (simp add: withFilename_def jsSet_def)

subsection \<open>Claims on the policy and on the appended row\<close>

text \<open>
  Claim C1 is about a table whose header contains the columns \<open>city\<close> and \<open>country\<close>, in
  any order, and the page reads them by their names. The update does not: it takes the
  first two fields of a row for the city and the country and writes the filename at the
  index of the filename column, and the policy of the claim is broken where the header
  puts these columns elsewhere. With the country before the city, the page lists the row
  of Rome in Italy, without a filename; the update for this key does not find the row,
  leaves its filename empty and appends a row that the page reads as the city Italy in
  the country Rome. With the filename column first and no row for the key, the appended
  row has lost the city and the page drops it.
\<close>

theorem update_priority_policy_counterexample:
  "loadLocations demoRuntime (demoWorld (js ''country,city,filename\<newline>Italy,Rome,'')) =
     Inr [\<lparr>loc_city = js ''Rome'', loc_country = js ''Italy'', loc_type = None,
           loc_filename = Some []\<rparr>] \<and>
   updateCsvText demoRuntime (js ''Rome'') (js ''Italy'') (js ''r.jpg'')
      (js ''country,city,filename\<newline>Italy,Rome,'') =
     Inr (js ''country,city,filename\<newline>Italy,Rome,\<newline>Rome,Italy,r.jpg'') \<and>
   loadLocations demoRuntime
      (snd (updateCsvWithFilename demoRuntime (js ''Rome'') (js ''Italy'') (js ''r.jpg'')
              (demoWorld (js ''country,city,filename\<newline>Italy,Rome,'')))) =
     Inr [\<lparr>loc_city = js ''Rome'', loc_country = js ''Italy'', loc_type = None,
           loc_filename = Some []\<rparr>,
          \<lparr>loc_city = js ''Italy'', loc_country = js ''Rome'', loc_type = None,
           loc_filename = Some (js ''r.jpg'')\<rparr>] \<and>
   updateCsvText demoRuntime (js ''Rome'') (js ''Italy'') (js ''r.jpg'')
      (js ''filename,city,country'') =
     Inr (js ''filename,city,country\<newline>r.jpg,Italy,'') \<and>
   loadLocations demoRuntime
      (snd (updateCsvWithFilename demoRuntime (js ''Rome'') (js ''Italy'') (js ''r.jpg'')
              (demoWorld (js ''filename,city,country'')))) = Inr []"
  by code_simp

text \<open>
  Claim C6 says that the appended row carries the key and the filename. When the
  filename column is the second one, the update writes the country and then the filename
  into the second field of the new row: the row holds the filename where the country
  should be, the country is lost, and the page, which wants a country in every row,
  drops the row.
\<close>

theorem update_appends_row_counterexample:
  "loadLocations demoRuntime (demoWorld (js ''city,filename,country\<newline>Paris,p.jpg,France'')) =
     Inr [\<lparr>loc_city = js ''Paris'', loc_country = js ''France'', loc_type = None,
           loc_filename = Some (js ''p.jpg'')\<rparr>] \<and>
   updateCsvText demoRuntime (js ''Rome'') (js ''Italy'') (js ''r.jpg'')
      (js ''city,filename,country\<newline>Paris,p.jpg,France'') =
     Inr (js ''city,filename,country\<newline>Paris,p.jpg,France\<newline>Rome,r.jpg,'') \<and>
   parseCsvLine (js ''Rome,r.jpg,'') = [js ''Rome'', js ''r.jpg'', []] \<and>
   loadLocations demoRuntime
      (snd (updateCsvWithFilename demoRuntime (js ''Rome'') (js ''Italy'') (js ''r.jpg'')
              (demoWorld (js ''city,filename,country\<newline>Paris,p.jpg,France'')))) =
     Inr [\<lparr>loc_city = js ''Paris'', loc_country = js ''France'', loc_type = None,
           loc_filename = Some (js ''p.jpg'')\<rparr>]"
  by code_simp

subsection \<open>The header without a filename column\<close>

lemma headerHandling_no_filename:
  assumes "indexOf (map (\<lambda>h. toLowerCase rt (trim h)) (parseCsvLine line0)) (js ''filename'') = None"
  shows "headerHandling rt line0 =
           (parseCsvLine line0 @ [js ''filename''], length (parseCsvLine line0), True)"
  using assms by (simp add: headerHandling_def Let_def)

text \<open>
  Claim C4, as stated, is refuted in its general part: the rows are padded in a local
  array only, and only the row that receives the filename is written back. A row that
  does not match keeps its two fields under a header of three.
\<close>

theorem update_widens_rows_counterexample:
  "updateCsvText demoRuntime (js ''Rome'') (js ''Italy'') (js ''rome-italy-9.jpg'')
      (js ''city,country\<newline>Rome,Italy\<newline>Paris,France'') =
     Inr (js ''city,country,filename\<newline>Rome,Italy,rome-italy-9.jpg\<newline>Paris,France'') \<and>
   parseCsvLine (js ''Paris,France'') = [js ''Paris'', js ''France'']"
  by code_simp

text \<open>
  Claim C4, amended. For a table whose header has \<open>city\<close> and \<open>country\<close> as its first two
  columns and names no filename column, the update appends \<open>filename\<close> to the header and
  writes the filename into one row: the first row with the key whose field in the new
  column is blank, else the first row with the key, else a new row at the end that holds
  the city, the country, empty fields up to the new column and the filename. A row of
  the table that receives the filename is written back with its fields padded to the
  length of the new header and the filename in the new column; every other line is
  written back as it was, in its place. For the header \<open>city,country\<close> and the single row
  \<open>Rome,Italy\<close> the result is the header \<open>city,country,filename\<close> and the row
  \<open>Rome,Italy,rome-italy-9.jpg\<close>.
\<close>

theorem update_appends_filename_column:
  assumes "lines = splitLines original"
      and "h0 = parseCsvLine (lines ! 0)"
      and "take 2 (map (\<lambda>h. toLowerCase rt (trim h)) h0) = [js ''city'', js ''country'']"
      and "indexOf (map (\<lambda>h. toLowerCase rt (trim h)) h0) (js ''filename'') = None"
  shows "updateCsvText rt city country filename original =
           Inr (joinWith 10
                  ((case rowStatus (length h0 + 1) (length h0) city country lines of
                      FoundEmpty i \<Rightarrow>
                        lines[i := stringifyCsvLine
                                     ((rowFields (length h0 + 1) (lines ! i))[length h0 := filename])]
                    | FoundFilled i \<Rightarrow>
                        lines[i := stringifyCsvLine
                                     ((rowFields (length h0 + 1) (lines ! i))[length h0 := filename])]
                    | NotFound \<Rightarrow>
                        lines @ [stringifyCsvLine
                                   ([city, country] @ replicate (length h0 - 2) [] @ [filename])])
                   [0 := stringifyCsvLine (h0 @ [js ''filename''])])) \<and>
         updateCsvText rt (js ''Rome'') (js ''Italy'') (js ''rome-italy-9.jpg'')
            (js ''city,country\<newline>Rome,Italy'') =
           Inr (js ''city,country,filename\<newline>Rome,Italy,rome-italy-9.jpg'')"
proof
  let ?header = "h0 @ [js ''filename'']"
  have hh: "headerHandling rt (splitLines original ! 0) = (?header, length h0, True)"
    using assms(4) unfolding assms(2) assms(1) by (rule headerHandling_no_filename)
  have "length (take 2 (map (\<lambda>h. toLowerCase rt (trim h)) h0)) = 2"
    by (simp only: assms(3)) simp
  then have two: "2 \<le> length h0" by simp
  then have two': "2 \<le> length ?header" by simp
  have fi: "length h0 < length h0 + 1" by simp
  have len: "length ?header = length h0 + 1" by simp
  have shape: "newRowFields (length h0 + 1) (length h0) city country filename =
      [city, country] @ replicate (length h0 - 2) [] @ [filename]"
    using newRowFields_shape[OF two fi, of city country filename] by simp
  show "updateCsvText rt city country filename original =
           Inr (joinWith 10
                  ((case rowStatus (length h0 + 1) (length h0) city country lines of
                      FoundEmpty i \<Rightarrow>
                        lines[i := stringifyCsvLine
                                     ((rowFields (length h0 + 1) (lines ! i))[length h0 := filename])]
                    | FoundFilled i \<Rightarrow>
                        lines[i := stringifyCsvLine
                                     ((rowFields (length h0 + 1) (lines ! i))[length h0 := filename])]
                    | NotFound \<Rightarrow>
                        lines @ [stringifyCsvLine
                                   ([city, country] @ replicate (length h0 - 2) [] @ [filename])])
                   [0 := stringifyCsvLine (h0 @ [js ''filename''])]))"
    using updateCsvText_policy[OF hh two', of city country filename]
    unfolding len applyPolicy_def withFilename_fields[OF fi] shape assms(1) .
next
  show "updateCsvText rt (js ''Rome'') (js ''Italy'') (js ''rome-italy-9.jpg'')
            (js ''city,country\<newline>Rome,Italy'') =
           Inr (js ''city,country,filename\<newline>Rome,Italy,rome-italy-9.jpg'')"
    by code_simp
qed

text \<open>
  An instance: of two rows for Rome the first has a value beyond the header, in what
  becomes the filename column, so the second one is filled; the row of Oslo keeps its
  three fields.
\<close>

theorem update_appends_filename_column_witness:
  "updateCsvText demoRuntime (js ''Rome'') (js ''Italy'') (js ''r.jpg'')
      (js ''City , Country,type\<newline>Oslo,Norway,x\<newline>Rome,Italy,y,old.jpg\<newline>Rome , Italy'') =
     Inr (js ''City , Country,type,filename\<newline>Oslo,Norway,x\<newline>Rome,Italy,y,old.jpg\<newline>Rome , Italy,,r.jpg'')"
proof -
  let ?original = "js ''City , Country,type\<newline>Oslo,Norway,x\<newline>Rome,Italy,y,old.jpg\<newline>Rome , Italy''"
  let ?lines = "splitLines ?original"
  let ?h0 = "parseCsvLine (?lines ! 0)"
  have key: "take 2 (map (\<lambda>h. toLowerCase demoRuntime (trim h)) ?h0) = [js ''city'', js ''country'']"
    by code_simp
  have none: "indexOf (map (\<lambda>h. toLowerCase demoRuntime (trim h)) ?h0) (js ''filename'') = None"
    by code_simp
  have r: "joinWith 10
      ((case rowStatus (length ?h0 + 1) (length ?h0) (js ''Rome'') (js ''Italy'') ?lines of
          FoundEmpty i \<Rightarrow>
            ?lines[i := stringifyCsvLine
                         ((rowFields (length ?h0 + 1) (?lines ! i))[length ?h0 := js ''r.jpg''])]
        | FoundFilled i \<Rightarrow>
            ?lines[i := stringifyCsvLine
                         ((rowFields (length ?h0 + 1) (?lines ! i))[length ?h0 := js ''r.jpg''])]
        | NotFound \<Rightarrow>
            ?lines @ [stringifyCsvLine
                       ([js ''Rome'', js ''Italy''] @ replicate (length ?h0 - 2) [] @ [js ''r.jpg''])])
       [0 := stringifyCsvLine (?h0 @ [js ''filename''])]) =
      js ''City , Country,type,filename\<newline>Oslo,Norway,x\<newline>Rome,Italy,y,old.jpg\<newline>Rome , Italy,,r.jpg''"
    by code_simp
  from update_appends_filename_column[OF refl refl key none, of "js ''Rome''" "js ''Italy''" "js ''r.jpg''",
      THEN conjunct1]
  show ?thesis unfolding r .
qed

subsection \<open>Rows that have been written\<close>
































subsection \<open>Claim on the repeated update\<close>




end
